theory Spec2Isabelle
  imports Main "HOL-Library.AList" "HOL-Library.Code_Target_Numeral"
begin

section \<open>Python values, errors and strings\<close>

text \<open>
  The module \<^verbatim>\<open>pygwalker/services/spec.py\<close> works on Python strings and on the values
  \<^verbatim>\<open>json.loads\<close> builds. A Python \<^verbatim>\<open>str\<close> is modelled as a \<^typ>\<open>string\<close> whose
  characters are the code points U+0000 to U+00FF, so that \<^const>\<open>length\<close> is Python's
  \<^verbatim>\<open>len\<close>. A \<^verbatim>\<open>dict\<close> is an association list with distinct keys in insertion order
  (\<^const>\<open>AList.update\<close> is \<^verbatim>\<open>d[k] = v\<close>). An integer is an \<^typ>\<open>int\<close>. A float is carried
  as the literal text the decoder hands to \<^verbatim>\<open>float\<close>; its IEEE value is not modelled
  beyond the test whether it is zero.
\<close>

datatype json =
    JNull
  | JBool bool
  | JInt int
  | JFloat string
  | JStr string
  | JArr "json list"
  | JObj "(string \<times> json) list"

text \<open>
  Every exception the module can raise is a value. \<open>Unsupported\<close> is not a Python
  exception: it marks a run that leaves the modelled fragment (a \<^verbatim>\<open>\u\<close> escape above
  U+00FF, the text of a serialised float, a float used as a dictionary key, a value of
  the wrong type handed to a helper whose source is not part of the module).
\<close>

datatype error =
    JSONDecodeError
  | ValueError
  | KeyError
  | TypeError
  | AttributeError
  | PrivacyError
  | InvalidConfigIdError
  | IOError string
  | Unsupported

type_synonym 'a result = "error + 'a"

definition bind :: "'a result \<Rightarrow> ('a \<Rightarrow> 'b result) \<Rightarrow> 'b result" where
  "bind r f = (case r of Inl e \<Rightarrow> Inl e | Inr x \<Rightarrow> f x)"

lemma bind_Inr [simp]: "bind (Inr x) f = f x"
  by (simp add: bind_def)

lemma bind_Inl [simp]: "bind (Inl e) f = Inl e"
  by (simp add: bind_def)

lemma bind_Inr_iff: "bind r f = Inr y \<longleftrightarrow> (\<exists>x. r = Inr x \<and> f x = Inr y)"
  by (cases r) (auto simp: bind_def)

subsection \<open>String methods\<close>

definition startswith :: "string \<Rightarrow> string \<Rightarrow> bool" where
  "startswith s p = (take (length p) s = p)"

lemma startswith_Nil [simp]: "startswith s []"
  by (simp add: startswith_def)

lemma startswith_Nil_Cons [simp]: "\<not> startswith [] (d # p)"
  by (simp add: startswith_def)

lemma startswith_Cons_Cons [simp]: "startswith (c # cs) (d # p) = (c = d \<and> startswith cs p)"
  by (auto simp: startswith_def)

text \<open>
  \<^verbatim>\<open>s.replace(old, new)\<close>: every non-overlapping occurrence of \<open>old\<close>, from the left. With
  an empty \<open>old\<close> Python puts \<open>new\<close> before every character and at the end.
\<close>

fun replace_from :: "string \<Rightarrow> string \<Rightarrow> string \<Rightarrow> string" where
  "replace_from [] old new = []"
| "replace_from (c # cs) old new =
     (if startswith (c # cs) old then new @ replace_from (drop (length old - 1) cs) old new
      else c # replace_from cs old new)"

definition str_replace :: "string \<Rightarrow> string \<Rightarrow> string \<Rightarrow> string" where
  "str_replace s old new =
     (if old = [] then new @ concat (map (\<lambda>c. c # new) s) else replace_from s old new)"

text \<open>\<^verbatim>\<open>os.path.basename\<close> of \<^verbatim>\<open>posixpath\<close>: what follows the last slash.\<close>

definition basename :: "string \<Rightarrow> string" where
  "basename p = rev (takeWhile (\<lambda>c. c \<noteq> CHR ''/'') (rev p))"

subsection \<open>Digits\<close>

definition is_digit :: "char \<Rightarrow> bool" where
  "is_digit c = (c \<in> set ''0123456789'')"

definition is_hexdigit :: "char \<Rightarrow> bool" where
  "is_hexdigit c = (c \<in> set ''0123456789abcdefABCDEF'')"

definition digit_val :: "char \<Rightarrow> nat" where
  "digit_val c = of_char c - 48"

definition dec_to_nat :: "string \<Rightarrow> nat" where
  "dec_to_nat ds = foldl (\<lambda>n c. 10 * n + digit_val c) 0 ds"

definition hex_val :: "char \<Rightarrow> nat" where
  "hex_val c =
     (if is_digit c then of_char c - 48
      else if c \<in> set ''abcdef'' then of_char c - 87
      else of_char c - 55)"

definition hex_to_nat :: "string \<Rightarrow> nat" where
  "hex_to_nat ds = foldl (\<lambda>n c. 16 * n + hex_val c) 0 ds"

text \<open>
  \<^verbatim>\<open>int(s, 16)\<close> raises \<^verbatim>\<open>ValueError\<close> or returns; \<open>int16_ok\<close> says that it returns.
  CPython skips white space on both sides, takes one sign, an optional \<^verbatim>\<open>0x\<close> or \<^verbatim>\<open>0X\<close>
  followed by at most one underscore, and then hexadecimal digits, where single
  underscores may stand between two digits.
\<close>

definition int_isspace :: "char \<Rightarrow> bool" where
  "int_isspace c =
     (c \<in> set [CHR 0x09, CHR 0x0A, CHR 0x0B, CHR 0x0C, CHR 0x0D, CHR 0x20, CHR 0x85, CHR 0xA0])"

fun underscores_ok :: "char \<Rightarrow> string \<Rightarrow> bool" where
  "underscores_ok prev [] = (prev \<noteq> CHR ''_'')"
| "underscores_ok prev (c # cs) =
     (if c = CHR ''_'' \<and> prev = CHR ''_'' then False else underscores_ok c cs)"

definition strip_sign :: "string \<Rightarrow> string" where
  "strip_sign s = (case s of [] \<Rightarrow> [] | c # r \<Rightarrow> if c = CHR ''+'' \<or> c = CHR ''-'' then r else s)"

definition strip_0x :: "string \<Rightarrow> string" where
  "strip_0x s =
     (case s of
        c # d # r \<Rightarrow>
          if c = CHR ''0'' \<and> (d = CHR ''x'' \<or> d = CHR ''X'')
          then (case r of [] \<Rightarrow> [] | u # r' \<Rightarrow> if u = CHR ''_'' then r' else r)
          else s
      | _ \<Rightarrow> s)"

definition int16_ok :: "string \<Rightarrow> bool" where
  "int16_ok s =
     (let s3 = strip_0x (strip_sign (dropWhile int_isspace s));
          body = takeWhile (\<lambda>c. is_hexdigit c \<or> c = CHR ''_'') s3;
          rest = dropWhile (\<lambda>c. is_hexdigit c \<or> c = CHR ''_'') s3
      in body \<noteq> [] \<and> hd body \<noteq> CHR ''_'' \<and> underscores_ok (CHR 0x00) body
         \<and> dropWhile int_isspace rest = [])"

section \<open>The JSON decoder and encoder\<close>

subsection \<open>Truth values and item access\<close>

text \<open>
  A float literal denotes zero when its digits are all zero or when its value is at most
  \<open>2 ^ - 1075\<close>, which the correctly rounded conversion takes to \<open>0.0\<close>.
\<close>

definition float_is_zero :: "string \<Rightarrow> bool" where
  "float_is_zero l =
     (if l = ''NaN'' \<or> l = ''Infinity'' \<or> l = ''-Infinity'' then False
      else
        let t = (case l of [] \<Rightarrow> [] | c # r \<Rightarrow> if c = CHR ''-'' then r else l);
            t1 = dropWhile is_digit t;
            fr = (case t1 of [] \<Rightarrow> [] | c # r \<Rightarrow> if c = CHR ''.'' then takeWhile is_digit r else []);
            t2 = (case t1 of [] \<Rightarrow> [] | c # r \<Rightarrow> if c = CHR ''.'' then dropWhile is_digit r else t1);
            ex = (case t2 of
                    [] \<Rightarrow> 0
                  | e # r \<Rightarrow>
                      (case r of
                         [] \<Rightarrow> 0
                       | c # r' \<Rightarrow>
                           if c = CHR ''-'' then - int (dec_to_nat r')
                           else if c = CHR ''+'' then int (dec_to_nat r')
                           else int (dec_to_nat r)));
            m = dec_to_nat (takeWhile is_digit t @ fr);
            k = ex - int (length fr)
        in m = 0 \<or> (k < 0 \<and> int m * 2 ^ 1075 \<le> 10 ^ nat (- k)))"

text \<open>\<^verbatim>\<open>bool(v)\<close>, which \<^verbatim>\<open>not v\<close> and \<^verbatim>\<open>if v:\<close> use.\<close>

fun py_truthy :: "json \<Rightarrow> bool" where
  "py_truthy JNull = False"
| "py_truthy (JBool b) = b"
| "py_truthy (JInt i) = (i \<noteq> 0)"
| "py_truthy (JFloat l) = (\<not> float_is_zero l)"
| "py_truthy (JStr s) = (s \<noteq> [])"
| "py_truthy (JArr xs) = (xs \<noteq> [])"
| "py_truthy (JObj ps) = (ps \<noteq> [])"

text \<open>\<^verbatim>\<open>v[k]\<close> with a string key: only a dict can answer, and only for a key it has.\<close>

fun py_getitem :: "json \<Rightarrow> string \<Rightarrow> json result" where
  "py_getitem (JObj ps) k = (case map_of ps k of None \<Rightarrow> Inl KeyError | Some v \<Rightarrow> Inr v)"
| "py_getitem v k = Inl TypeError"

text \<open>\<^verbatim>\<open>v.get(k, d)\<close>: a method of dicts only.\<close>

fun py_get :: "json \<Rightarrow> string \<Rightarrow> json \<Rightarrow> json result" where
  "py_get (JObj ps) k d = (case map_of ps k of None \<Rightarrow> Inr d | Some v \<Rightarrow> Inr v)"
| "py_get v k d = Inl AttributeError"

subsection \<open>Scanning\<close>

definition is_ws :: "char \<Rightarrow> bool" where
  "is_ws c = (c \<in> set [CHR 0x20, CHR 0x09, CHR 0x0A, CHR 0x0D])"

definition unescape :: "char \<Rightarrow> char option" where
  "unescape e =
     (if e = CHR 0x22 then Some (CHR 0x22)
      else if e = CHR 0x5C then Some (CHR 0x5C)
      else if e = CHR ''/'' then Some (CHR ''/'')
      else if e = CHR ''b'' then Some (CHR 0x08)
      else if e = CHR ''f'' then Some (CHR 0x0C)
      else if e = CHR ''n'' then Some (CHR 0x0A)
      else if e = CHR ''r'' then Some (CHR 0x0D)
      else if e = CHR ''t'' then Some (CHR 0x09)
      else None)"

definition cons_str :: "char \<Rightarrow> (string \<times> string) result \<Rightarrow> (string \<times> string) result" where
  "cons_str c r = (case r of Inl e \<Rightarrow> Inl e | Inr (s, rest) \<Rightarrow> Inr (c # s, rest))"

text \<open>
  The body of a string literal, after its opening quote, in strict mode: the decoded
  text and what follows the closing quote.
\<close>

fun scanstring :: "string \<Rightarrow> (string \<times> string) result" where
  "scanstring [] = Inl JSONDecodeError"
| "scanstring (c # cs) =
     (if c = CHR 0x22 then Inr ([], cs)
      else if c = CHR 0x5C then
        (case cs of
           [] \<Rightarrow> Inl JSONDecodeError
         | e # r \<Rightarrow>
             if e = CHR ''u'' then
               (case r of
                  h1 # h2 # h3 # h4 # r' \<Rightarrow>
                    if list_all is_hexdigit [h1, h2, h3, h4] then
                      (if hex_to_nat [h1, h2, h3, h4] < 256
                       then cons_str (char_of (hex_to_nat [h1, h2, h3, h4])) (scanstring r')
                       else Inl Unsupported)
                    else Inl JSONDecodeError
                | _ \<Rightarrow> Inl JSONDecodeError)
             else
               (case unescape e of
                  None \<Rightarrow> Inl JSONDecodeError
                | Some ch \<Rightarrow> cons_str ch (scanstring r)))
      else if of_char c < (32 :: nat) then Inl JSONDecodeError
      else cons_str c (scanstring cs))"

text \<open>
  A number, as the decoder's pattern
  \<^verbatim>\<open>(-?(?:0|[1-9]\d*))(\.\d+)?([eE][-+]?\d+)?\<close> matches it: each optional group is
  taken when it matches and skipped otherwise.
\<close>

definition scan_int_part :: "string \<Rightarrow> (string \<times> string) option" where
  "scan_int_part s =
     (case s of
        [] \<Rightarrow> None
      | c # r \<Rightarrow>
          if c = CHR ''0'' then Some ([c], r)
          else if is_digit c then Some (c # takeWhile is_digit r, dropWhile is_digit r)
          else None)"

definition scan_frac :: "string \<Rightarrow> string \<times> string" where
  "scan_frac s =
     (case s of
        c # d # r \<Rightarrow>
          if c = CHR ''.'' \<and> is_digit d then (c # d # takeWhile is_digit r, dropWhile is_digit r)
          else ([], s)
      | _ \<Rightarrow> ([], s))"

definition scan_exp :: "string \<Rightarrow> string \<times> string" where
  "scan_exp s =
     (case s of
        [] \<Rightarrow> ([], s)
      | e # r \<Rightarrow>
          if e = CHR ''e'' \<or> e = CHR ''E'' then
            (let sg = (case r of [] \<Rightarrow> [] | c # r1 \<Rightarrow> if c = CHR ''-'' \<or> c = CHR ''+'' then [c] else []);
                 r' = drop (length sg) r
             in case r' of
                  [] \<Rightarrow> ([], s)
                | d # r2 \<Rightarrow>
                    if is_digit d then (e # sg @ d # takeWhile is_digit r2, dropWhile is_digit r2)
                    else ([], s))
          else ([], s))"

definition scan_number :: "string \<Rightarrow> (json \<times> string) option" where
  "scan_number s =
     (let sg = (case s of [] \<Rightarrow> [] | c # r \<Rightarrow> if c = CHR ''-'' then [c] else [])
      in case scan_int_part (drop (length sg) s) of
           None \<Rightarrow> None
         | Some (ip, s1) \<Rightarrow>
             (let (fr, s2) = scan_frac s1; (ex, s3) = scan_exp s2
              in Some (if fr = [] \<and> ex = []
                       then JInt (if sg = [] then int (dec_to_nat ip) else - int (dec_to_nat ip))
                       else JFloat (sg @ ip @ fr @ ex), s3)))"

datatype token = TLBrace | TRBrace | TLBrack | TRBrack | TComma | TColon | TVal json

text \<open>
  The next token of a text that does not start with white space, in the order in which
  the decoder tries the alternatives.
\<close>

definition scan_token :: "string \<Rightarrow> (token \<times> string) result" where
  "scan_token s =
     (case s of
        [] \<Rightarrow> Inl JSONDecodeError
      | c # cs \<Rightarrow>
          if c = CHR 0x22 then
            (case scanstring cs of Inl e \<Rightarrow> Inl e | Inr (str, rest) \<Rightarrow> Inr (TVal (JStr str), rest))
          else if c = CHR ''{'' then Inr (TLBrace, cs)
          else if c = CHR ''}'' then Inr (TRBrace, cs)
          else if c = CHR ''['' then Inr (TLBrack, cs)
          else if c = CHR '']'' then Inr (TRBrack, cs)
          else if c = CHR '','' then Inr (TComma, cs)
          else if c = CHR '':'' then Inr (TColon, cs)
          else if startswith s ''null'' then Inr (TVal JNull, drop 4 s)
          else if startswith s ''true'' then Inr (TVal (JBool True), drop 4 s)
          else if startswith s ''false'' then Inr (TVal (JBool False), drop 5 s)
          else
            (case scan_number s of
               Some (v, rest) \<Rightarrow> Inr (TVal v, rest)
             | None \<Rightarrow>
                 if startswith s ''NaN'' then Inr (TVal (JFloat ''NaN''), drop 3 s)
                 else if startswith s ''Infinity'' then Inr (TVal (JFloat ''Infinity''), drop 8 s)
                 else if startswith s ''-Infinity'' then Inr (TVal (JFloat ''-Infinity''), drop 9 s)
                 else Inl JSONDecodeError))"

lemma cons_str_rest:
  "cons_str c r = Inr (s, rest) \<Longrightarrow> \<exists>s'. r = Inr (s', rest)"
  by (cases r) (auto simp: cons_str_def)

lemma scanstring_shorter:
  "scanstring cs = Inr (s, rest) \<Longrightarrow> length rest < length cs"
proof (induction cs arbitrary: s rule: scanstring.induct)
  case 1
  then show ?case by simp
next
  case (2 c cs)
  show ?case
  proof (cases "c = CHR 0x22")
    case True
    with 2 show ?thesis by simp
  next
    case quote: False
    show ?thesis
    proof (cases "c = CHR 0x5C")
      case False
      with quote "2.prems" obtain s' where "scanstring cs = Inr (s', rest)"
        by (auto split: if_splits dest: cons_str_rest)
      with "2.IH"(3) [OF quote False] "2.prems" quote False show ?thesis
        by (fastforce split: if_splits)
    next
      case True
      then obtain e r where cs: "cs = e # r"
        using "2.prems" quote by (cases cs) auto
      show ?thesis
      proof (cases "e = CHR ''u''")
        case False
        with "2.prems" quote True cs obtain ch s' where
          "unescape e = Some ch" "scanstring r = Inr (s', rest)"
          by (auto split: option.splits dest: cons_str_rest)
        with "2.IH"(2) [OF quote True cs False] cs show ?thesis
          by fastforce
      next
        case u: True
        with "2.prems" quote True cs obtain h1 h2 h3 h4 r' s' where
          r: "r = h1 # h2 # h3 # h4 # r'" and
          h: "list_all is_hexdigit [h1, h2, h3, h4]" "hex_to_nat [h1, h2, h3, h4] < 256" and
          "scanstring r' = Inr (s', rest)"
          by (auto split: list.splits if_splits dest: cons_str_rest)
        with "2.IH"(1) [OF quote True cs u r] cs show ?thesis
          by fastforce
      qed
    qed
  qed
qed

lemma scan_number_shorter:
  "scan_number s = Some (v, rest) \<Longrightarrow> length rest < length s"
proof -
  have le: "length (dropWhile P xs) \<le> length xs" for P and xs :: string
    by (simp add: length_dropWhile_le)
  have frac: "length (snd (scan_frac t)) \<le> length t" for t
    using le [of is_digit]
    by (auto simp: scan_frac_def le_SucI split: list.splits)
  have ex: "length (snd (scan_exp t)) \<le> length t" for t
    using le [of is_digit]
    by (auto simp: scan_exp_def Let_def le_SucI split: list.splits)
  have ip: "scan_int_part t = Some (a, b) \<Longrightarrow> length b < length t" for t a b
    using le [of is_digit]
    by (auto simp: scan_int_part_def less_Suc_eq_le split: list.splits if_splits)
  assume "scan_number s = Some (v, rest)"
  then obtain sg a b where
    a: "scan_int_part (drop (length (sg :: string)) s) = Some (a, b)" and
    rest: "rest = snd (scan_exp (snd (scan_frac b)))"
    by (auto simp: scan_number_def Let_def split: option.splits prod.splits)
  have "length rest \<le> length b"
    unfolding rest using ex frac order_trans by blast
  moreover have "length b < length s"
    using ip [OF a] by simp
  ultimately show ?thesis by simp
qed

lemma scan_token_shorter:
  "scan_token s = Inr (t, rest) \<Longrightarrow> length rest < length s"
  by (cases s)
    (auto simp: scan_token_def startswith_def less_Suc_eq_le
          split: if_splits sum.splits option.splits
          dest!: scanstring_shorter scan_number_shorter)

text \<open>The tokens of a text; white space may stand between any two of them.\<close>

function lex :: "string \<Rightarrow> token list result" where
  "lex s =
     (case dropWhile is_ws s of
        [] \<Rightarrow> Inr []
      | c # cs \<Rightarrow>
          (case scan_token (c # cs) of
             Inl e \<Rightarrow> Inl e
           | Inr (t, rest) \<Rightarrow> (case lex rest of Inl e \<Rightarrow> Inl e | Inr ts \<Rightarrow> Inr (t # ts))))"
  by pat_completeness auto
termination
proof (relation "measure length")
  show "wf (measure length)" by simp
next
  fix s :: string and c cs x t rest
  assume ws: "dropWhile is_ws s = c # cs" and tok: "scan_token (c # cs) = Inr x"
    and x: "(t, rest) = x"
  have "length rest < length (c # cs)"
    using scan_token_shorter [of "c # cs" t rest] tok x by simp
  also have "\<dots> \<le> length s"
    using length_dropWhile_le [of is_ws s] ws by simp
  finally show "(rest, s) \<in> measure length" by simp
qed

declare lex.simps [simp del]

subsection \<open>Parsing\<close>

text \<open>
  The decoder reads the tokens from the left with a stack of the arrays and objects it
  is inside of. An object under construction holds its members and the key it has last
  read; a repeated key keeps its first position and takes its last value, as
  \<^verbatim>\<open>dict(pairs)\<close> does.
\<close>

datatype frame = FArr "json list" | FObj "(string \<times> json) list" string

datatype mode = MValue | MFirst | MAfter | MKey | MColon | MDone json

type_synonym pstate = "frame list \<times> mode"

fun deliver :: "json \<Rightarrow> frame list \<Rightarrow> pstate" where
  "deliver v [] = ([], MDone v)"
| "deliver v (FArr xs # st) = (FArr (xs @ [v]) # st, MAfter)"
| "deliver v (FObj ps k # st) = (FObj (AList.update k v ps) k # st, MAfter)"

definition open_value :: "frame list \<Rightarrow> token \<Rightarrow> pstate option" where
  "open_value st t =
     (case t of
        TVal v \<Rightarrow> Some (deliver v st)
      | TLBrack \<Rightarrow> Some (FArr [] # st, MFirst)
      | TLBrace \<Rightarrow> Some (FObj [] [] # st, MFirst)
      | _ \<Rightarrow> None)"

definition close_or_next :: "frame list \<Rightarrow> token \<Rightarrow> pstate option" where
  "close_or_next st t =
     (case st of
        [] \<Rightarrow> None
      | FArr xs # st' \<Rightarrow>
          (if t = TComma then Some (st, MValue)
           else if t = TRBrack then Some (deliver (JArr xs) st')
           else None)
      | FObj ps k # st' \<Rightarrow>
          (if t = TComma then Some (st, MKey)
           else if t = TRBrace then Some (deliver (JObj ps) st')
           else None))"

definition read_key :: "frame list \<Rightarrow> token \<Rightarrow> pstate option" where
  "read_key st t =
     (case (st, t) of
        (FObj ps k # st', TVal (JStr k')) \<Rightarrow> Some (FObj ps k' # st', MColon)
      | _ \<Rightarrow> None)"

fun step :: "pstate \<Rightarrow> token \<Rightarrow> pstate option" where
  "step (st, MValue) t = open_value st t"
| "step (st, MFirst) t =
     (case st of
        FArr xs # st' \<Rightarrow> if t = TRBrack then Some (deliver (JArr xs) st') else open_value st t
      | FObj ps k # st' \<Rightarrow> if t = TRBrace then Some (deliver (JObj ps) st') else read_key st t
      | [] \<Rightarrow> None)"
| "step (st, MAfter) t = close_or_next st t"
| "step (st, MKey) t = read_key st t"
| "step (st, MColon) t = (if t = TColon then Some (st, MValue) else None)"
| "step (st, MDone v) t = None"

fun run :: "token list \<Rightarrow> pstate \<Rightarrow> pstate option" where
  "run [] s = Some s"
| "run (t # ts) s = (case step s t of None \<Rightarrow> None | Some s' \<Rightarrow> run ts s')"

text \<open>\<^verbatim>\<open>json.loads(s)\<close> for a \<^verbatim>\<open>str\<close>: one value, and nothing but white space around it.\<close>

definition json_loads :: "string \<Rightarrow> json result" where
  "json_loads s =
     (case lex s of
        Inl e \<Rightarrow> Inl e
      | Inr ts \<Rightarrow>
          (case run ts ([], MValue) of
             Some ([], MDone v) \<Rightarrow> Inr v
           | _ \<Rightarrow> Inl JSONDecodeError))"

subsection \<open>Serialising\<close>

definition hex_digit :: "nat \<Rightarrow> char" where
  "hex_digit n = ''0123456789abcdef'' ! (n mod 16)"

text \<open>
  \<^verbatim>\<open>json.dumps\<close> with its defaults: \<^verbatim>\<open>ensure_ascii\<close>, and the separators \<^verbatim>\<open>", "\<close> and
  \<^verbatim>\<open>": "\<close>.
\<close>

definition escape_char :: "char \<Rightarrow> string" where
  "escape_char c =
     (if c = CHR 0x22 then [CHR 0x5C, CHR 0x22]
      else if c = CHR 0x5C then [CHR 0x5C, CHR 0x5C]
      else if c = CHR 0x0A then [CHR 0x5C, CHR ''n'']
      else if c = CHR 0x0D then [CHR 0x5C, CHR ''r'']
      else if c = CHR 0x09 then [CHR 0x5C, CHR ''t'']
      else if c = CHR 0x08 then [CHR 0x5C, CHR ''b'']
      else if c = CHR 0x0C then [CHR 0x5C, CHR ''f'']
      else if (32 :: nat) \<le> of_char c \<and> of_char c \<le> (126 :: nat) then [c]
      else [CHR 0x5C, CHR ''u'', CHR ''0'', CHR ''0'',
            hex_digit (of_char c div 16), hex_digit (of_char c)])"

definition dumps_str :: "string \<Rightarrow> string" where
  "dumps_str s = CHR 0x22 # concat (map escape_char s) @ [CHR 0x22]"

function nat_to_dec :: "nat \<Rightarrow> string" where
  "nat_to_dec n =
     (if n < 10 then [char_of (48 + n)] else nat_to_dec (n div 10) @ [char_of (48 + n mod 10)])"
  by pat_completeness auto
termination
  by (relation "measure id") auto

declare nat_to_dec.simps [simp del]

definition int_to_dec :: "int \<Rightarrow> string" where
  "int_to_dec i = (if i < 0 then CHR ''-'' # nat_to_dec (nat (- i)) else nat_to_dec (nat i))"

fun json_dumps :: "json \<Rightarrow> string"
  and dumps_items :: "json list \<Rightarrow> string"
  and dumps_members :: "(string \<times> json) list \<Rightarrow> string" where
  "json_dumps JNull = ''null''"
| "json_dumps (JBool b) = (if b then ''true'' else ''false'')"
| "json_dumps (JInt i) = int_to_dec i"
| "json_dumps (JFloat l) = l"
| "json_dumps (JStr s) = dumps_str s"
| "json_dumps (JArr xs) = ''['' @ dumps_items xs @ '']''"
| "json_dumps (JObj ps) = ''{'' @ dumps_members ps @ ''}''"
| "dumps_items [] = []"
| "dumps_items [x] = json_dumps x"
| "dumps_items (x # y # ys) = json_dumps x @ '', '' @ dumps_items (y # ys)"
| "dumps_members [] = []"
| "dumps_members [(k, v)] = dumps_str k @ '': '' @ json_dumps v"
| "dumps_members ((k, v) # p # ps) =
     dumps_str k @ '': '' @ json_dumps v @ '', '' @ dumps_members (p # ps)"

text \<open>
  The encoder writes a float as \<^verbatim>\<open>repr\<close> of its IEEE value, which is outside the model:
  \<open>json_dumps\<close> is used on values without floats only.
\<close>

fun float_free :: "json \<Rightarrow> bool" where
  "float_free (JFloat l) = False"
| "float_free (JArr xs) = list_all float_free xs"
| "float_free (JObj ps) = list_all (\<lambda>p. float_free (snd p)) ps"
| "float_free v = True"

section \<open>Version numbers\<close>

text \<open>
  \<^verbatim>\<open>distutils.version.StrictVersion\<close>: two or three numbers separated by dots and an
  optional pre-release tag, \<^verbatim>\<open>a\<close> or \<^verbatim>\<open>b\<close> and a number. The pattern ends in \<^verbatim>\<open>$\<close>, which
  also matches before one final newline.
\<close>

record strict_version =
  version :: "nat \<times> nat \<times> nat"
  prerelease :: "(char \<times> nat) option"

definition parse_version :: "string \<Rightarrow> strict_version result" where
  "parse_version vstring =
     (let body = (if vstring \<noteq> [] \<and> last vstring = CHR 0x0A then butlast vstring else vstring);
          major = takeWhile is_digit body;
          r1 = dropWhile is_digit body
      in if major = [] then Inl ValueError
         else case r1 of
           [] \<Rightarrow> Inl ValueError
         | c # r2 \<Rightarrow>
             if c \<noteq> CHR ''.'' then Inl ValueError
             else
               let minor = takeWhile is_digit r2;
                   r3 = dropWhile is_digit r2
               in if minor = [] then Inl ValueError
                  else
                    let p = (case r3 of
                               [] \<Rightarrow> []
                             | d # r \<Rightarrow> if d = CHR ''.'' then takeWhile is_digit r else []);
                        r4 = (if p = [] then r3 else drop (Suc (length p)) r3);
                        q = (case r4 of
                               [] \<Rightarrow> []
                             | t # r \<Rightarrow>
                                 if t = CHR ''a'' \<or> t = CHR ''b'' then takeWhile is_digit r else []);
                        r5 = (if q = [] then r4 else drop (Suc (length q)) r4)
                    in if r5 \<noteq> [] then Inl ValueError
                       else Inr \<lparr>version = (dec_to_nat major, dec_to_nat minor,
                                             if p = [] then 0 else dec_to_nat p),
                                  prerelease = (if q = [] then None
                                                else Some (hd r4, dec_to_nat q))\<rparr>)"

text \<open>
  The constructor parses its argument only when the argument is true; otherwise the
  object has no attributes, and comparing it raises \<^verbatim>\<open>AttributeError\<close>. A true argument
  that is not a string makes the pattern match raise \<^verbatim>\<open>TypeError\<close>.
\<close>

definition StrictVersion :: "json \<Rightarrow> strict_version option result" where
  "StrictVersion vstring =
     (if \<not> py_truthy vstring then Inr None
      else case vstring of
             JStr s \<Rightarrow> bind (parse_version s) (\<lambda>v. Inr (Some v))
           | _ \<Rightarrow> Inl TypeError)"

definition tuple3_less :: "nat \<times> nat \<times> nat \<Rightarrow> nat \<times> nat \<times> nat \<Rightarrow> bool" where
  "tuple3_less a b =
     (case (a, b) of
        ((a1, a2, a3), (b1, b2, b3)) \<Rightarrow>
          a1 < b1 \<or> (a1 = b1 \<and> (a2 < b2 \<or> (a2 = b2 \<and> a3 < b3))))"

definition pre_less :: "char \<times> nat \<Rightarrow> char \<times> nat \<Rightarrow> bool" where
  "pre_less p q =
     ((of_char (fst p) :: nat) < of_char (fst q) \<or> (fst p = fst q \<and> snd p < snd q))"

text \<open>\<^verbatim>\<open>StrictVersion._cmp\<close>: the numbers decide; when they agree, a pre-release is smaller
  than the release, and two pre-releases compare as pairs.\<close>

definition cmp_version :: "strict_version \<Rightarrow> strict_version \<Rightarrow> int" where
  "cmp_version a b =
     (if version a \<noteq> version b then (if tuple3_less (version a) (version b) then - 1 else 1)
      else case (prerelease a, prerelease b) of
             (None, None) \<Rightarrow> 0
           | (Some p, None) \<Rightarrow> - 1
           | (None, Some q) \<Rightarrow> 1
           | (Some p, Some q) \<Rightarrow> if p = q then 0 else if pre_less p q then - 1 else 1)"

text \<open>\<^verbatim>\<open>a <= b\<close> on two \<^verbatim>\<open>StrictVersion\<close> objects.\<close>

definition version_le :: "strict_version option \<Rightarrow> strict_version option \<Rightarrow> bool result" where
  "version_le a b =
     (case (a, b) of
        (Some x, Some y) \<Rightarrow> Inr (cmp_version x y \<le> 0)
      | _ \<Rightarrow> Inl AttributeError)"

section \<open>The module \<^verbatim>\<open>pygwalker/services/spec.py\<close>\<close>

subsection \<open>What the module is given\<close>

text \<open>
  The collaborators whose source is not part of the module are parameters: the privacy
  flag \<^verbatim>\<open>GlobalVarManager.privacy\<close>, \<^verbatim>\<open>read_config_from_cloud\<close>, the answer of
  \<^verbatim>\<open>urlopen(url, timeout).read().decode("utf-8")\<close>, \<^verbatim>\<open>rename_columns\<close>, the successive
  results of \<^verbatim>\<open>rand_str()\<close>, and the error, if any, with which the operating system
  refuses to create a file.
\<close>

record env =
  privacy :: string
  read_config_from_cloud :: "string \<Rightarrow> string result"
  urlopen :: "string \<Rightarrow> nat \<Rightarrow> string result"
  rename_columns :: "string list \<Rightarrow> string list"
  rand_str :: "nat \<Rightarrow> string"
  open_w_error :: "string \<Rightarrow> error option"

text \<open>
  What a call can change: the files (a path that exists has a text, or the error that
  reading it raises), the requests sent to the network so far, and the number of random
  strings drawn.
\<close>

datatype request = CloudRead string | HttpGet string nat

record world =
  files :: "string \<rightharpoonup> string result"
  requests :: "request list"
  rand_count :: nat

subsection \<open>Classifying and fetching\<close>

text \<open>\<^verbatim>\<open>_is_json\<close> catches \<^verbatim>\<open>ValueError\<close>, and \<^verbatim>\<open>JSONDecodeError\<close> is one.\<close>

definition is_json :: "string \<Rightarrow> bool result" where
  "is_json s =
     (case json_loads s of
        Inr v \<Rightarrow> Inr True
      | Inl e \<Rightarrow> if e = JSONDecodeError \<or> e = ValueError then Inr False else Inl e)"

definition server_url :: string where
  "server_url =
     ''https://i4rwxmw117.execute-api.us-east-1.amazonaws.com/default/pygwalker-config?config_id=''"

text \<open>\<^verbatim>\<open>v != 0\<close>: \<^verbatim>\<open>False\<close> and a zero float equal \<^verbatim>\<open>0\<close>.\<close>

fun py_ne_zero :: "json \<Rightarrow> bool" where
  "py_ne_zero (JInt i) = (i \<noteq> 0)"
| "py_ne_zero (JBool b) = b"
| "py_ne_zero (JFloat l) = (\<not> float_is_zero l)"
| "py_ne_zero v = True"

definition get_spec_from_server :: "env \<Rightarrow> world \<Rightarrow> string \<Rightarrow> json result \<times> world" where
  "get_spec_from_server e w config_id =
     (let url = server_url @ config_id
      in (bind (urlopen e url 30) (\<lambda>body.
          bind (json_loads body) (\<lambda>json_data.
          bind (py_getitem json_data ''code'') (\<lambda>code.
            if py_ne_zero code then Inl InvalidConfigIdError
            else bind (py_getitem json_data ''data'') (\<lambda>d. py_getitem d ''config_json'')))),
          w\<lparr>requests := requests w @ [HttpGet url 30]\<rparr>))"

definition get_spec_from_url :: "env \<Rightarrow> world \<Rightarrow> string \<Rightarrow> string result \<times> world" where
  "get_spec_from_url e w url = (urlopen e url 15, w\<lparr>requests := requests w @ [HttpGet url 15]\<rparr>)"

definition get_spec_from_local :: "world \<Rightarrow> string \<Rightarrow> string result" where
  "get_spec_from_local w path =
     (case files w path of None \<Rightarrow> Inl (IOError ''FileNotFoundError'') | Some r \<Rightarrow> r)"

definition is_config_id :: "string \<Rightarrow> bool" where
  "is_config_id config_id = (if length config_id \<noteq> 32 then False else int16_ok config_id)"

text \<open>
  \<^verbatim>\<open>_get_spec_json_from_diff_source\<close>. The first component of its result is a string on
  every path but the one through the remote lookup, which hands on whatever value the
  service put under \<^verbatim>\<open>config_json\<close>.
\<close>

definition get_spec_json_from_diff_source ::
    "env \<Rightarrow> world \<Rightarrow> string \<Rightarrow> (json \<times> string) result \<times> world" where
  "get_spec_json_from_diff_source e w spec =
     (if spec = [] then (Inr (JStr [], ''empty_string''), w)
      else case is_json spec of
        Inl err \<Rightarrow> (Inl err, w)
      | Inr True \<Rightarrow> (Inr (JStr spec, ''json_string''), w)
      | Inr False \<Rightarrow>
          if startswith spec ''ksf://'' then
            (if privacy e = ''offline'' then (Inl PrivacyError, w)
             else (bind (read_config_from_cloud e (drop 6 spec)) (\<lambda>s. Inr (JStr s, ''json_ksf'')),
                   w\<lparr>requests := requests w @ [CloudRead (drop 6 spec)]\<rparr>))
          else if startswith spec ''http:'' \<or> startswith spec ''https:'' then
            (if privacy e = ''offline'' then (Inl PrivacyError, w)
             else (case get_spec_from_url e w spec of
                     (r, w') \<Rightarrow> (bind r (\<lambda>s. Inr (JStr s, ''json_http'')), w')))
          else if is_config_id spec then
            (if privacy e = ''offline'' then (Inl PrivacyError, w)
             else (case get_spec_from_server e w spec of
                     (r, w') \<Rightarrow> (bind r (\<lambda>v. Inr (v, ''json_server'')), w')))
          else if length (basename spec) > 200 then (Inl ValueError, w)
          else if files w spec \<noteq> None then
            (bind (get_spec_from_local w spec) (\<lambda>s. Inr (JStr s, ''json_file'')), w)
          else
            (case open_w_error e spec of
               Some err \<Rightarrow> (Inl err, w)
             | None \<Rightarrow> (Inr (JStr [], ''json_file''), w\<lparr>files := (files w)(spec \<mapsto> Inr [])\<rparr>)))"

subsection \<open>Migrating field identifiers\<close>

text \<open>What a \<^verbatim>\<open>for\<close> loop over a value visits: the items of a list, the keys of a dict, the
  characters of a string; nothing else can be iterated.\<close>

fun py_iter :: "json \<Rightarrow> json list result" where
  "py_iter (JArr xs) = Inr xs"
| "py_iter (JObj ps) = Inr (map (\<lambda>p. JStr (fst p)) ps)"
| "py_iter (JStr s) = Inr (map (\<lambda>c. JStr [c]) s)"
| "py_iter v = Inl TypeError"

text \<open>
  The fields that \<^verbatim>\<open>for field in dimensions + measures\<close> visits. Two lists concatenate and
  so do two strings; two numbers add to a number, which cannot be iterated, and every
  other pair cannot be added: \<^verbatim>\<open>TypeError\<close> either way.
\<close>

fun plus_fields :: "json \<Rightarrow> json \<Rightarrow> json list result" where
  "plus_fields (JArr xs) (JArr ys) = Inr (xs @ ys)"
| "plus_fields (JStr s) (JStr t) = py_iter (JStr (s @ t))"
| "plus_fields a b = Inl TypeError"

definition encodings_fields :: "json \<Rightarrow> json list result" where
  "encodings_fields chart_item =
     bind (py_getitem chart_item ''encodings'') (\<lambda>enc.
     bind (py_getitem enc ''dimensions'') (\<lambda>dims.
     bind (py_getitem chart_item ''encodings'') (\<lambda>enc'.
     bind (py_getitem enc' ''measures'') (\<lambda>meas.
     plus_fields dims meas))))"

text \<open>
  The keys of a Python dict: lists and dicts cannot be hashed, \<^verbatim>\<open>True\<close> is the key \<^verbatim>\<open>1\<close>
  and \<^verbatim>\<open>False\<close> the key \<^verbatim>\<open>0\<close>.
\<close>

datatype pykey = KStr string | KNum int | KNone

fun py_hash_key :: "json \<Rightarrow> pykey result" where
  "py_hash_key (JStr s) = Inr (KStr s)"
| "py_hash_key (JInt i) = Inr (KNum i)"
| "py_hash_key (JBool b) = Inr (KNum (if b then 1 else 0))"
| "py_hash_key JNull = Inr KNone"
| "py_hash_key (JFloat l) = Inl Unsupported"
| "py_hash_key v = Inl TypeError"

text \<open>The dict comprehension of \<^verbatim>\<open>_config_adapter\<close>, field by field.\<close>

fun old_fid_fname_map :: "json list \<Rightarrow> (pykey \<times> json) list \<Rightarrow> (pykey \<times> json) list result" where
  "old_fid_fname_map [] m = Inr m"
| "old_fid_fname_map (field # fs) m =
     bind (py_get field ''computed'' (JBool False)) (\<lambda>computed.
       if py_truthy computed then old_fid_fname_map fs m
       else bind (py_get field ''fid'' JNull) (\<lambda>fid.
         if fid = JStr ''gw_mea_val_fid'' \<or> fid = JStr ''gw_mea_key_fid''
         then old_fid_fname_map fs m
         else bind (py_getitem field ''fid'') (\<lambda>k.
              bind (py_getitem field ''name'') (\<lambda>fname.
              bind (py_hash_key k) (\<lambda>key.
              old_fid_fname_map fs (AList.update key fname m))))))"

text \<open>\<^verbatim>\<open>rename_columns\<close> takes a list of strings.\<close>

fun str_list :: "json list \<Rightarrow> string list result" where
  "str_list [] = Inr []"
| "str_list (JStr s # vs) = bind (str_list vs) (\<lambda>ss. Inr (s # ss))"
| "str_list (v # vs) = Inl Unsupported"

text \<open>The loop over \<^verbatim>\<open>zip(old_fid_list, new_fid_list)\<close>; \<^verbatim>\<open>str.replace\<close> wants strings.\<close>

fun replace_all :: "string \<Rightarrow> (pykey \<times> string) list \<Rightarrow> string result" where
  "replace_all config [] = Inr config"
| "replace_all config ((KStr old_fid, new_fid) # ps) =
     replace_all (str_replace config old_fid new_fid) ps"
| "replace_all config (p # ps) = Inl TypeError"

definition adapt_chart_item :: "env \<Rightarrow> string \<Rightarrow> json \<Rightarrow> string result" where
  "adapt_chart_item e config chart_item =
     bind (encodings_fields chart_item) (\<lambda>fs.
     bind (old_fid_fname_map fs []) (\<lambda>m.
     bind (str_list (map snd m)) (\<lambda>fname_list.
     replace_all config (zip (map fst m) (rename_columns e fname_list)))))"

fun adapt_chart_items :: "env \<Rightarrow> string \<Rightarrow> json list \<Rightarrow> string result" where
  "adapt_chart_items e config [] = Inr config"
| "adapt_chart_items e config (chart_item # items) =
     bind (adapt_chart_item e config chart_item) (\<lambda>config'. adapt_chart_items e config' items)"

definition config_adapter :: "env \<Rightarrow> string \<Rightarrow> string result" where
  "config_adapter e config =
     bind (json_loads config) (\<lambda>config_obj.
     bind (py_iter config_obj) (\<lambda>items.
     adapt_chart_items e config items))"

subsection \<open>Filling in new fields\<close>

text \<open>A field of the dataset is a dict from strings to strings.\<close>

type_synonym field = "(string \<times> string) list"

definition field_getitem :: "field \<Rightarrow> string \<Rightarrow> string result" where
  "field_getitem field k = (case map_of field k of None \<Rightarrow> Inl KeyError | Some v \<Rightarrow> Inr v)"

definition field_json :: "field \<Rightarrow> json" where
  "field_json field = JObj (map (\<lambda>p. (fst p, JStr (snd p))) field)"

fun py_hashable :: "json \<Rightarrow> bool" where
  "py_hashable (JArr xs) = False"
| "py_hashable (JObj ps) = False"
| "py_hashable v = True"

text \<open>The set comprehension \<^verbatim>\<open>{field["fid"] for field in ...}\<close>, as the list of its members.\<close>

fun field_set :: "json list \<Rightarrow> json list result" where
  "field_set [] = Inr []"
| "field_set (field # fs) =
     bind (py_getitem field ''fid'') (\<lambda>fid.
       if py_hashable fid then bind (field_set fs) (\<lambda>S. Inr (fid # S)) else Inl TypeError)"

text \<open>
  The dict \<^verbatim>\<open>{**field, "basename": field["name"], "dragId": "GW_" + rand_str()}\<close>, where
  \<^verbatim>\<open>rand_str()\<close> is the draw number \<open>n\<close>.
\<close>

definition gw_field :: "env \<Rightarrow> nat \<Rightarrow> string \<Rightarrow> field \<Rightarrow> json" where
  "gw_field e n name field =
     field_json (AList.update ''dragId'' (''GW_'' @ rand_str e n)
                  (AList.update ''basename'' name field))"

text \<open>
  The loop over \<^verbatim>\<open>all_fields\<close>, with the two lists it appends to and the number of random
  strings drawn so far. The name is read before the random string is drawn, and the
  analytic type after.
\<close>

fun new_fields ::
    "env \<Rightarrow> json list \<Rightarrow> field list \<Rightarrow> json list \<times> json list \<Rightarrow> nat
      \<Rightarrow> (json list \<times> json list) result \<times> nat" where
  "new_fields e S [] acc n = (Inr acc, n)"
| "new_fields e S (field # all_fields) (new_dimension_fields, new_measure_fields) n =
     (case field_getitem field ''fid'' of
        Inl err \<Rightarrow> (Inl err, n)
      | Inr fid \<Rightarrow>
          if JStr fid \<in> set S
          then new_fields e S all_fields (new_dimension_fields, new_measure_fields) n
          else
            (case field_getitem field ''name'' of
               Inl err \<Rightarrow> (Inl err, n)
             | Inr name \<Rightarrow>
                 case field_getitem field ''analyticType'' of
                   Inl err \<Rightarrow> (Inl err, Suc n)
                 | Inr analyticType \<Rightarrow>
                     if analyticType = ''dimension''
                     then new_fields e S all_fields
                            (new_dimension_fields @ [gw_field e n name field], new_measure_fields)
                            (Suc n)
                     else new_fields e S all_fields
                            (new_dimension_fields, new_measure_fields @ [gw_field e n name field])
                            (Suc n)))"

text \<open>\<^verbatim>\<open>v.extend(xs)\<close> is a method of lists; \<^verbatim>\<open>v[k] = x\<close> with a string key needs a dict.\<close>

fun py_extend :: "json \<Rightarrow> json list \<Rightarrow> json result" where
  "py_extend (JArr xs) ys = Inr (JArr (xs @ ys))"
| "py_extend v ys = Inl AttributeError"

fun py_setitem :: "json \<Rightarrow> string \<Rightarrow> json \<Rightarrow> json result" where
  "py_setitem (JObj ps) k x = Inr (JObj (AList.update k x ps))"
| "py_setitem v k x = Inl TypeError"

text \<open>
  \<^verbatim>\<open>chart_item["encodings"][key].extend(new)\<close> changes the list inside the chart item; in
  the model the chart item with the longer list is returned.
\<close>

definition extend_encoding :: "json \<Rightarrow> string \<Rightarrow> json list \<Rightarrow> json result" where
  "extend_encoding chart_item key new =
     bind (py_getitem chart_item ''encodings'') (\<lambda>enc.
     bind (py_getitem enc key) (\<lambda>old.
     bind (py_extend old new) (\<lambda>ext.
     bind (py_setitem enc key ext) (\<lambda>enc'.
     py_setitem chart_item ''encodings'' enc'))))"

definition fill_chart_item :: "env \<Rightarrow> field list \<Rightarrow> json \<Rightarrow> nat \<Rightarrow> json result \<times> nat" where
  "fill_chart_item e all_fields chart_item n =
     (case bind (encodings_fields chart_item) field_set of
        Inl err \<Rightarrow> (Inl err, n)
      | Inr S \<Rightarrow>
          (case new_fields e S all_fields ([], []) n of
             (Inl err, n') \<Rightarrow> (Inl err, n')
           | (Inr (new_dimension_fields, new_measure_fields), n') \<Rightarrow>
               (bind (extend_encoding chart_item ''dimensions'' new_dimension_fields)
                  (\<lambda>item'. extend_encoding item' ''measures'' new_measure_fields), n')))"

fun fill_chart_items :: "env \<Rightarrow> field list \<Rightarrow> json list \<Rightarrow> nat \<Rightarrow> json list result \<times> nat" where
  "fill_chart_items e all_fields [] n = (Inr [], n)"
| "fill_chart_items e all_fields (chart_item # items) n =
     (case fill_chart_item e all_fields chart_item n of
        (Inl err, n') \<Rightarrow> (Inl err, n')
      | (Inr item', n') \<Rightarrow>
          (case fill_chart_items e all_fields items n' of
             (Inl err, n'') \<Rightarrow> (Inl err, n'')
           | (Inr items', n'') \<Rightarrow> (Inr (item' # items'), n'')))"

text \<open>
  \<^verbatim>\<open>fill_new_fields\<close>. A loop over a dict or a string that comes to its end has visited
  nothing, so the object that is serialised is the one that was parsed unless it is a
  list.
\<close>

definition fill_new_fields :: "env \<Rightarrow> world \<Rightarrow> string \<Rightarrow> field list \<Rightarrow> string result \<times> world" where
  "fill_new_fields e w config all_fields =
     (case json_loads config of
        Inl err \<Rightarrow> (Inl err, w)
      | Inr config_obj \<Rightarrow>
          (case py_iter config_obj of
             Inl err \<Rightarrow> (Inl err, w)
           | Inr items \<Rightarrow>
               (case fill_chart_items e all_fields items (rand_count w) of
                  (Inl err, n) \<Rightarrow> (Inl err, w\<lparr>rand_count := n\<rparr>)
                | (Inr items', n) \<Rightarrow>
                    (let obj = (case config_obj of JArr xs \<Rightarrow> JArr items' | _ \<Rightarrow> config_obj)
                     in (if float_free obj then Inr (json_dumps obj) else Inl Unsupported,
                         w\<lparr>rand_count := n\<rparr>)))))"

subsection \<open>The resolver\<close>

text \<open>The condition of the version gate, line 166.\<close>

definition needs_migration :: "json \<Rightarrow> bool result" where
  "needs_migration spec_obj =
     bind (py_get spec_obj ''version'' (JStr ''0.1.0'')) (\<lambda>v.
     bind (StrictVersion v) (\<lambda>a.
     bind (StrictVersion (JStr ''0.3.17a4'')) (\<lambda>b.
     version_le a b)))"

text \<open>\<^verbatim>\<open>json.loads\<close> inside the \<^verbatim>\<open>try\<close> of \<^verbatim>\<open>get_spec_json\<close>; it takes a string.\<close>

definition loads_spec :: "json \<Rightarrow> json result" where
  "loads_spec spec =
     (case spec of
        JStr s \<Rightarrow> (case json_loads s of
                     Inl err \<Rightarrow> if err = JSONDecodeError then Inl ValueError else Inl err
                   | Inr v \<Rightarrow> Inr v)
      | _ \<Rightarrow> Inl TypeError)"

definition empty_document :: json where
  "empty_document = JObj [(''chart_map'', JObj []), (''config'', JStr [])]"

definition migrate :: "env \<Rightarrow> json \<Rightarrow> json result" where
  "migrate e spec_obj =
     bind (py_getitem spec_obj ''config'') (\<lambda>config.
     bind (case config of JStr c \<Rightarrow> config_adapter e c | _ \<Rightarrow> Inl TypeError) (\<lambda>config'.
     py_setitem spec_obj ''config'' (JStr config')))"

definition get_spec_json :: "env \<Rightarrow> world \<Rightarrow> string \<Rightarrow> (json \<times> string) result \<times> world" where
  "get_spec_json e w spec =
     (case get_spec_json_from_diff_source e w spec of
        (Inl err, w') \<Rightarrow> (Inl err, w')
      | (Inr (spec', spec_type), w') \<Rightarrow>
          (if \<not> py_truthy spec' then Inr (empty_document, spec_type)
           else
             bind (loads_spec spec') (\<lambda>parsed.
               let spec_obj = (case parsed of
                                 JArr xs \<Rightarrow> JObj [(''chart_map'', JObj []), (''config'', spec')]
                               | _ \<Rightarrow> parsed)
               in bind (needs_migration spec_obj) (\<lambda>gate.
                    if gate then bind (migrate e spec_obj) (\<lambda>spec_obj'. Inr (spec_obj', spec_type))
                    else Inr (spec_obj, spec_type))),
           w'))"

subsection \<open>Sample collaborators\<close>

fun is_dict :: "json \<Rightarrow> bool" where
  "is_dict (JObj ps) = True"
| "is_dict v = False"

fun is_list :: "json \<Rightarrow> bool" where
  "is_list (JArr xs) = True"
| "is_list v = False"

text \<open>An environment and a world on which the theorems below are run.\<close>

definition sample_env :: env where
  "sample_env =
     \<lparr>privacy = ''online'',
      read_config_from_cloud = (\<lambda>s. Inr ''[]''),
      urlopen = (\<lambda>url timeout. Inr ''{\"code\": 0, \"data\": {\"config_json\": \"[]\"}}''),
      rename_columns = map (\<lambda>name. ''GW_'' @ name),
      rand_str = nat_to_dec,
      open_w_error = (\<lambda>path. None)\<rparr>"

definition sample_world :: world where
  "sample_world = \<lparr>files = Map.empty, requests = [], rand_count = 0\<rparr>"

subsection \<open>The version order of the specification\<close>

text \<open>
  The specification orders versions by their numbers, ranks a pre-release below the
  release with the same numbers, and compares two pre-release tags as pairs of a letter
  and a number. The threshold of the gate is \<^verbatim>\<open>0.3.17a4\<close>.
\<close>

definition threshold :: strict_version where
  "threshold = \<lparr>version = (0, 3, 17), prerelease = Some (CHR ''a'', 4)\<rparr>"

definition spec_version_le :: "strict_version \<Rightarrow> strict_version \<Rightarrow> bool" where
  "spec_version_le a b =
     (tuple3_less (version a) (version b)
      \<or> (version a = version b
          \<and> (case (prerelease a, prerelease b) of
                (None, None) \<Rightarrow> True
              | (Some p, None) \<Rightarrow> True
              | (None, Some q) \<Rightarrow> False
              | (Some p, Some q) \<Rightarrow> p = q \<or> pre_less p q)))"

text \<open>The version a document declares, \<^verbatim>\<open>0.1.0\<close> when it declares none.\<close>

definition declared_version :: "(string \<times> json) list \<Rightarrow> json" where
  "declared_version ps = (case map_of ps ''version'' of None \<Rightarrow> JStr ''0.1.0'' | Some v \<Rightarrow> v)"


text \<open>The six source tags.\<close>

definition source_tags :: "string list" where
  "source_tags =
     [''empty_string'', ''json_string'', ''json_ksf'', ''json_http'', ''json_server'', ''json_file'']"

subsection \<open>Notions for the round trip through the encoder\<close>

text \<open>What may follow a value in the encoder's output: nothing, a comma or a closing bracket.\<close>

definition follow_ok :: "string \<Rightarrow> bool" where
  "follow_ok r = (case r of [] \<Rightarrow> True | c # cs \<Rightarrow> c = CHR '','' \<or> c = CHR '']'' \<or> c = CHR ''}'')"

text \<open>The tokens of the text that the encoder writes for a value.\<close>

fun toks :: "json \<Rightarrow> token list"
  and toks_items :: "json list \<Rightarrow> token list"
  and toks_members :: "(string \<times> json) list \<Rightarrow> token list" where
  "toks (JArr xs) = TLBrack # toks_items xs @ [TRBrack]"
| "toks (JObj ps) = TLBrace # toks_members ps @ [TRBrace]"
| "toks JNull = [TVal JNull]"
| "toks (JBool b) = [TVal (JBool b)]"
| "toks (JInt i) = [TVal (JInt i)]"
| "toks (JFloat l) = [TVal (JFloat l)]"
| "toks (JStr s) = [TVal (JStr s)]"
| "toks_items [] = []"
| "toks_items [x] = toks x"
| "toks_items (x # y # ys) = toks x @ TComma # toks_items (y # ys)"
| "toks_members [] = []"
| "toks_members [(k, v)] = TVal (JStr k) # TColon # toks v"
| "toks_members ((k, v) # p # ps) =
     TVal (JStr k) # TColon # toks v @ TComma # toks_members (p # ps)"

text \<open>Putting tokens in front of the result of the lexer.\<close>

definition lex_cons :: "token \<Rightarrow> token list result \<Rightarrow> token list result" where
  "lex_cons t r = (case r of Inl e \<Rightarrow> Inl e | Inr ts \<Rightarrow> Inr (t # ts))"

definition lex_app :: "token list \<Rightarrow> token list result \<Rightarrow> token list result" where
  "lex_app ts r = (case r of Inl e \<Rightarrow> Inl e | Inr ts' \<Rightarrow> Inr (ts @ ts'))"

text \<open>A value as the decoder builds it: no dict has a key twice.\<close>

fun wf_json :: "json \<Rightarrow> bool" where
  "wf_json (JArr xs) = list_all wf_json xs"
| "wf_json (JObj ps) = (distinct (map fst ps) \<and> list_all (\<lambda>p. wf_json (snd p)) ps)"
| "wf_json v = True"

text \<open>The states of the decoder in which a value may start.\<close>

definition value_mode :: "mode \<Rightarrow> frame list \<Rightarrow> bool" where
  "value_mode m st = (m = MValue \<or> (m = MFirst \<and> (\<exists>xs st'. st = FArr xs # st')))"

text \<open>The invariant of the decoder: every value it holds is well formed.\<close>

fun wf_token :: "token \<Rightarrow> bool" where
  "wf_token (TVal v) = wf_json v"
| "wf_token t = True"

fun wf_frame :: "frame \<Rightarrow> bool" where
  "wf_frame (FArr xs) = list_all wf_json xs"
| "wf_frame (FObj ps k) = (distinct (map fst ps) \<and> list_all (\<lambda>p. wf_json (snd p)) ps)"

fun wf_state :: "pstate \<Rightarrow> bool" where
  "wf_state (st, MDone v) = (list_all wf_frame st \<and> wf_json v)"
| "wf_state (st, m) = list_all wf_frame st"

section \<open>Properties\<close>

subsection \<open>A JSON text that is neither an object nor a list\<close>

lemma py_get_not_dict: "\<not> is_dict v \<Longrightarrow> py_get v k d = Inl AttributeError"
  by (cases v) auto

text \<open>
  C9. A non-empty input that parses as a JSON value that is neither an object nor a list
  (a number, a quoted string, \<^verbatim>\<open>true\<close>, \<^verbatim>\<open>false\<close>, \<^verbatim>\<open>null\<close>) is tagged \<^verbatim>\<open>json_string\<close> by the
  classifier, and \<^verbatim>\<open>get_spec_json\<close> then raises \<^verbatim>\<open>AttributeError\<close> at
  \<^verbatim>\<open>spec_obj.get\<close>: no document is returned and none of the specified error kinds is raised.
\<close>

theorem scalar_json_attribute_error:
  assumes "spec \<noteq> []" and "json_loads spec = Inr v" and "\<not> is_dict v" and "\<not> is_list v"
  shows "get_spec_json_from_diff_source e w spec = (Inr (JStr spec, ''json_string''), w)
         \<and> get_spec_json e w spec = (Inl AttributeError, w)"
proof -
  have src: "get_spec_json_from_diff_source e w spec = (Inr (JStr spec, ''json_string''), w)"
    using assms(1,2) by (simp add: get_spec_json_from_diff_source_def is_json_def)
  have "(case v of JArr xs \<Rightarrow> JObj [(''chart_map'', JObj []), (''config'', JStr spec)] | _ \<Rightarrow> v) = v"
    using assms(4) by (cases v) auto
  moreover have "needs_migration v = Inl AttributeError"
    using assms(3) by (simp add: needs_migration_def py_get_not_dict bind_def)
  ultimately have "get_spec_json e w spec = (Inl AttributeError, w)"
    using assms(1,2) src by (simp add: get_spec_json_def loads_spec_def bind_def)
  with src show ?thesis by simp
qed

theorem scalar_json_attribute_error_witness:
  "get_spec_json_from_diff_source sample_env sample_world ''12345678901234567890123456789012''
     = (Inr (JStr ''12345678901234567890123456789012'', ''json_string''), sample_world)
   \<and> get_spec_json sample_env sample_world ''12345678901234567890123456789012''
     = (Inl AttributeError, sample_world)"
proof -
  have l: "json_loads ''12345678901234567890123456789012''
             = Inr (JInt 12345678901234567890123456789012)"
    by code_simp
  have n: "''12345678901234567890123456789012'' \<noteq> []" by simp
  have d: "\<not> is_dict (JInt 12345678901234567890123456789012)" by simp
  have i: "\<not> is_list (JInt 12345678901234567890123456789012)" by simp
  show ?thesis
    by (rule scalar_json_attribute_error [OF n l d i])
qed

subsection \<open>The version gate\<close>

lemma tuple3_less_irrefl: "\<not> tuple3_less a a"
  by (cases a) (auto simp: tuple3_less_def)

lemma cmp_version_le: "(cmp_version a b \<le> 0) = spec_version_le a b"
  by (auto simp: cmp_version_def spec_version_le_def tuple3_less_irrefl split: option.splits)

lemma parse_threshold: "parse_version ''0.3.17a4'' = Inr threshold"
  by (simp add: parse_version_def threshold_def is_digit_def dec_to_nat_def digit_val_def Let_def)

lemma parse_0318: "parse_version ''0.3.18'' = Inr \<lparr>version = (0, 3, 18), prerelease = None\<rparr>"
  by (simp add: parse_version_def is_digit_def dec_to_nat_def digit_val_def Let_def)

lemma parse_010: "parse_version ''0.1.0'' = Inr \<lparr>version = (0, 1, 0), prerelease = None\<rparr>"
  by (simp add: parse_version_def is_digit_def dec_to_nat_def digit_val_def Let_def)

lemma parse_version_nonempty: "parse_version s = Inr v \<Longrightarrow> s \<noteq> []"
  by (auto simp: parse_version_def)

lemma needs_migration_parsed:
  assumes "declared_version ps = JStr s" and "parse_version s = Inr v"
  shows "needs_migration (JObj ps) = Inr (spec_version_le v threshold)"
proof -
  have get: "py_get (JObj ps) ''version'' (JStr ''0.1.0'') = Inr (JStr s)"
    using assms(1) by (simp add: declared_version_def split: option.splits)
  have "StrictVersion (JStr s) = Inr (Some v)"
    using assms(2) parse_version_nonempty [OF assms(2)] by (simp add: StrictVersion_def bind_def)
  moreover have "StrictVersion (JStr ''0.3.17a4'') = Inr (Some threshold)"
    by (simp add: StrictVersion_def bind_def parse_threshold)
  ultimately show ?thesis
    using get by (simp add: needs_migration_def bind_def version_le_def cmp_version_le)
qed


lemma needs_migration_threshold:
  "map_of ps ''version'' = Some (JStr ''0.3.17a4'') \<Longrightarrow> needs_migration (JObj ps) = Inr True"
  using needs_migration_parsed [of ps "''0.3.17a4''" threshold]
  by (simp add: declared_version_def parse_threshold spec_version_le_def threshold_def)

lemma needs_migration_0318:
  "map_of ps ''version'' = Some (JStr ''0.3.18'') \<Longrightarrow> needs_migration (JObj ps) = Inr False"
  using needs_migration_parsed [of ps "''0.3.18''" "\<lparr>version = (0, 3, 18), prerelease = None\<rparr>"]
  by (simp add: declared_version_def parse_0318 spec_version_le_def threshold_def tuple3_less_def)

lemma needs_migration_absent:
  "map_of ps ''version'' = None \<Longrightarrow> needs_migration (JObj ps) = Inr True"
  using needs_migration_parsed [of ps "''0.1.0''" "\<lparr>version = (0, 1, 0), prerelease = None\<rparr>"]
  by (simp add: declared_version_def parse_010 spec_version_le_def threshold_def tuple3_less_def)

lemma get_spec_json_gate:
  assumes "get_spec_json_from_diff_source e w spec = (Inr (JStr text, tag), w')"
    and "text \<noteq> []" and "json_loads text = Inr (JObj ps)"
    and "needs_migration (JObj ps) = Inr gate"
  shows "get_spec_json e w spec =
           (if gate then bind (migrate e (JObj ps)) (\<lambda>d. Inr (d, tag)) else Inr (JObj ps, tag), w')"
  using assms by (simp add: get_spec_json_def loads_spec_def bind_def)

text \<open>
  C1. The version gate triggers exactly when the declared version is at or below
  \<^verbatim>\<open>0.3.17a4\<close> in the order of the specification: a document that declares \<^verbatim>\<open>0.3.17a4\<close>
  is migrated, one that declares \<^verbatim>\<open>0.3.18\<close> is not, and one that declares no version
  counts as \<^verbatim>\<open>0.1.0\<close> and is migrated. When the gate triggers, the resolver returns the
  migrated document; otherwise it returns the parsed document as it is.
\<close>

theorem version_gate:
  "(declared_version ps = JStr s \<and> parse_version s = Inr v
      \<longrightarrow> needs_migration (JObj ps) = Inr (spec_version_le v threshold))
   \<and> (map_of ps ''version'' = Some (JStr ''0.3.17a4'') \<longrightarrow> needs_migration (JObj ps) = Inr True)
   \<and> (map_of ps ''version'' = Some (JStr ''0.3.18'') \<longrightarrow> needs_migration (JObj ps) = Inr False)
   \<and> (map_of ps ''version'' = None
        \<longrightarrow> declared_version ps = JStr ''0.1.0'' \<and> needs_migration (JObj ps) = Inr True)
   \<and> (get_spec_json_from_diff_source e w spec = (Inr (JStr text, tag), w')
        \<and> text \<noteq> [] \<and> json_loads text = Inr (JObj ps) \<and> needs_migration (JObj ps) = Inr gate
      \<longrightarrow> get_spec_json e w spec =
            (if gate then bind (migrate e (JObj ps)) (\<lambda>d. Inr (d, tag)) else Inr (JObj ps, tag), w'))"
  using needs_migration_parsed needs_migration_threshold needs_migration_0318
    needs_migration_absent get_spec_json_gate
  by (simp add: declared_version_def)

lemma src_0318:
  "get_spec_json_from_diff_source sample_env sample_world ''{\"version\": \"0.3.18\"}''
     = (Inr (JStr ''{\"version\": \"0.3.18\"}'', ''json_string''), sample_world)"
proof -
  have "is_json ''{\"version\": \"0.3.18\"}'' = Inr True"
    by code_simp
  then show ?thesis
    by (simp add: get_spec_json_from_diff_source_def)
qed

theorem version_gate_witness:
  "needs_migration (JObj [(''version'', JStr ''0.3.17a4'')]) = Inr True
   \<and> needs_migration (JObj [(''version'', JStr ''0.3.18'')]) = Inr False
   \<and> needs_migration (JObj []) = Inr True
   \<and> needs_migration (JObj [(''version'', JStr ''0.3.17'')]) = Inr False
   \<and> get_spec_json sample_env sample_world ''{\"version\": \"0.3.18\"}''
       = (Inr (JObj [(''version'', JStr ''0.3.18'')], ''json_string''), sample_world)"
proof -
  have p: "parse_version ''0.3.17'' = Inr \<lparr>version = (0, 3, 17), prerelease = None\<rparr>"
    by (simp add: parse_version_def is_digit_def dec_to_nat_def digit_val_def Let_def)
  have l: "json_loads ''{\"version\": \"0.3.18\"}'' = Inr (JObj [(''version'', JStr ''0.3.18'')])"
    by code_simp
  have a: "needs_migration (JObj [(''version'', JStr ''0.3.17a4'')]) = Inr True"
    using version_gate [of "[(''version'', JStr ''0.3.17a4'')]"] by simp
  have b: "needs_migration (JObj [(''version'', JStr ''0.3.18'')]) = Inr False"
    using version_gate [of "[(''version'', JStr ''0.3.18'')]"] by simp
  have c: "needs_migration (JObj []) = Inr True"
    using version_gate [of "[]"] by simp
  have d: "needs_migration (JObj [(''version'', JStr ''0.3.17'')]) = Inr False"
    using version_gate [of "[(''version'', JStr ''0.3.17'')]" "''0.3.17''"
        "\<lparr>version = (0, 3, 17), prerelease = None\<rparr>"] p
    by (simp add: declared_version_def spec_version_le_def threshold_def tuple3_less_def)
  have e: "get_spec_json sample_env sample_world ''{\"version\": \"0.3.18\"}''
       = (Inr (JObj [(''version'', JStr ''0.3.18'')], ''json_string''), sample_world)"
    using version_gate [of "[(''version'', JStr ''0.3.18'')]" _ _ sample_env sample_world
        "''{\"version\": \"0.3.18\"}''" "''{\"version\": \"0.3.18\"}''" "''json_string''"
        sample_world False] src_0318 l b
    by simp
  from a b c d e show ?thesis by simp
qed

subsection \<open>The privacy mode\<close>















subsection \<open>Local file paths\<close>

lemma source_local_file:
  assumes "spec \<noteq> []" and "is_json spec = Inr False" and "\<not> startswith spec ''ksf://''"
    and "\<not> startswith spec ''http:''" and "\<not> startswith spec ''https:''"
    and "\<not> is_config_id spec"
  shows "get_spec_json_from_diff_source e w spec =
           (if length (basename spec) > 200 then (Inl ValueError, w)
            else if files w spec \<noteq> None
              then (bind (get_spec_from_local w spec) (\<lambda>s. Inr (JStr s, ''json_file'')), w)
            else case open_w_error e spec of
                   Some err \<Rightarrow> (Inl err, w)
                 | None \<Rightarrow> (Inr (JStr [], ''json_file''), w\<lparr>files := (files w)(spec \<mapsto> Inr [])\<rparr>))"
  using assms unfolding get_spec_json_from_diff_source_def by simp

text \<open>
  C8. For a spec that the classifier takes for a local file path (not empty, not JSON, no
  network prefix, not a config id): if the base name of the path is longer than 200
  characters, the resolver fails with \<^verbatim>\<open>ValueError\<close>; otherwise, if no file exists at
  the path and the operating system lets one be created, the resolver creates an empty
  file there and returns the empty document tagged \<^verbatim>\<open>json_file\<close>.
\<close>

theorem local_file_path:
  assumes "spec \<noteq> []" and "is_json spec = Inr False" and "\<not> startswith spec ''ksf://''"
    and "\<not> startswith spec ''http:''" and "\<not> startswith spec ''https:''"
    and "\<not> is_config_id spec"
  shows "(length (basename spec) > 200 \<longrightarrow> get_spec_json e w spec = (Inl ValueError, w))
       \<and> (length (basename spec) \<le> 200 \<and> files w spec = None \<and> open_w_error e spec = None
          \<longrightarrow> get_spec_json e w spec
                = (Inr (JObj [(''chart_map'', JObj []), (''config'', JStr [])], ''json_file''),
                   w\<lparr>files := (files w)(spec \<mapsto> Inr [])\<rparr>))"
  unfolding get_spec_json_def source_local_file [OF assms]
  by (simp add: empty_document_def)

theorem local_file_path_witness:
  "get_spec_json sample_env sample_world (replicate 201 (CHR ''a'')) = (Inl ValueError, sample_world)
   \<and> get_spec_json sample_env sample_world ''./nope.json''
       = (Inr (JObj [(''chart_map'', JObj []), (''config'', JStr [])], ''json_file''),
          sample_world\<lparr>files := (files sample_world)(''./nope.json'' \<mapsto> Inr [])\<rparr>)"
proof -
  have a: "replicate 201 (CHR ''a'') \<noteq> []" "is_json (replicate 201 (CHR ''a'')) = Inr False"
    "\<not> startswith (replicate 201 (CHR ''a'')) ''ksf://''"
    "\<not> startswith (replicate 201 (CHR ''a'')) ''http:''"
    "\<not> startswith (replicate 201 (CHR ''a'')) ''https:''"
    "\<not> is_config_id (replicate 201 (CHR ''a''))"
    "length (basename (replicate 201 (CHR ''a''))) > 200"
    by code_simp+
  have b: "''./nope.json'' \<noteq> []" "is_json ''./nope.json'' = Inr False"
    "\<not> startswith ''./nope.json'' ''ksf://''"
    "\<not> startswith ''./nope.json'' ''http:''"
    "\<not> startswith ''./nope.json'' ''https:''"
    "\<not> is_config_id ''./nope.json''"
    "length (basename ''./nope.json'') \<le> 200"
    by code_simp+
  have c: "files sample_world ''./nope.json'' = None" "open_w_error sample_env ''./nope.json'' = None"
    by (simp_all add: sample_world_def sample_env_def)
  show ?thesis
    using local_file_path [OF a(1-6), where e = sample_env and w = sample_world] a(7)
      local_file_path [OF b(1-6), where e = sample_env and w = sample_world] b(7) c
    by simp
qed

subsection \<open>Config ids\<close>








lemma source_config_id:
  assumes "spec \<noteq> []" and "is_json spec = Inr False" and "\<not> startswith spec ''ksf://''"
    and "\<not> startswith spec ''http:''" and "\<not> startswith spec ''https:''"
    and "is_config_id spec"
  shows "get_spec_json_from_diff_source e w spec =
           (if privacy e = ''offline'' then (Inl PrivacyError, w)
            else case get_spec_from_server e w spec of
                   (r, w') \<Rightarrow> (bind r (\<lambda>v. Inr (v, ''json_server'')), w'))"
  using assms unfolding get_spec_json_from_diff_source_def by simp


lemma sample_lookup:
  "get_spec_from_server sample_env sample_world config_id
     = (Inr (JStr ''[]''), sample_world\<lparr>requests := [HttpGet (server_url @ config_id) 30]\<rparr>)"
proof -
  have "json_loads ''{\"code\": 0, \"data\": {\"config_json\": \"[]\"}}''
          = Inr (JObj [(''code'', JInt 0), (''data'', JObj [(''config_json'', JStr ''[]'')])])"
    by code_simp
  then show ?thesis
    by (simp add: get_spec_from_server_def sample_env_def sample_world_def bind_def)
qed



text \<open>
  \<^verbatim>\<open>int(s, 16)\<close> accepts more than hexadecimal digits: with \<^verbatim>\<open>x\<close> in second place the
  string below is still taken for a config id.
\<close>

lemma config_id_with_0x_prefix:
  "\<not> is_hexdigit (CHR ''x'')
   \<and> get_spec_json_from_diff_source sample_env sample_world ''0x345678901234567890123456789012''
       = (Inr (JStr ''[]'', ''json_server''),
          sample_world\<lparr>requests :=
            [HttpGet (server_url @ ''0x345678901234567890123456789012'') 30]\<rparr>)"
proof -
  have a: "''0x345678901234567890123456789012'' \<noteq> []"
    "is_json ''0x345678901234567890123456789012'' = Inr False"
    "\<not> startswith ''0x345678901234567890123456789012'' ''ksf://''"
    "\<not> startswith ''0x345678901234567890123456789012'' ''http:''"
    "\<not> startswith ''0x345678901234567890123456789012'' ''https:''"
    "is_config_id ''0x345678901234567890123456789012''"
    by code_simp+
  have on: "privacy sample_env \<noteq> ''offline''"
    by (simp add: sample_env_def)
  have "\<not> is_hexdigit (CHR ''x'')"
    by code_simp
  then show ?thesis
    using source_config_id [OF a, of sample_env sample_world] on
    by (simp add: sample_lookup bind_def)
qed

subsection \<open>What the resolver returns\<close>

lemma source_tag_known:
  assumes "get_spec_json_from_diff_source e w spec = (Inr (v, tag), w')"
  shows "tag \<in> set source_tags"
proof -
  have "isl (fst (get_spec_json_from_diff_source e w spec))
      \<or> snd (projr (fst (get_spec_json_from_diff_source e w spec))) \<in> set source_tags"
    unfolding get_spec_json_from_diff_source_def get_spec_from_url_def source_tags_def
    by (auto simp: bind_def split: sum.splits bool.splits option.splits prod.splits)
  with assms show ?thesis by simp
qed

lemma py_setitem_dict: "py_setitem d k x = Inr d' \<Longrightarrow> \<exists>ps. d = JObj ps \<and> d' = JObj (AList.update k x ps)"
  by (cases d) auto

lemma needs_migration_dict: "needs_migration d = Inr b \<Longrightarrow> is_dict d"
  by (cases d) (auto simp: needs_migration_def)

lemma migrate_result:
  assumes "migrate e d = Inr d'"
  shows "\<exists>ps c0 c. d = JObj ps \<and> map_of ps ''config'' = Some (JStr c0)
           \<and> config_adapter e c0 = Inr c \<and> d' = JObj (AList.update ''config'' (JStr c) ps)"
proof -
  from assms obtain config c where
    g: "py_getitem d ''config'' = Inr config" and
    a: "(case config of JStr c \<Rightarrow> config_adapter e c | _ \<Rightarrow> Inl TypeError) = Inr c" and
    s: "py_setitem d ''config'' (JStr c) = Inr d'"
    unfolding migrate_def bind_Inr_iff by blast
  from s obtain ps where d: "d = JObj ps" "d' = JObj (AList.update ''config'' (JStr c) ps)"
    using py_setitem_dict by blast
  from a obtain c0 where c0: "config = JStr c0" "config_adapter e c0 = Inr c"
    by (cases config) auto
  from g d c0 have "map_of ps ''config'' = Some (JStr c0)"
    by (auto split: option.splits)
  with d c0 show ?thesis by blast
qed


text \<open>
  C7, as amended. Whenever \<^verbatim>\<open>get_spec_json\<close> returns, it returns a dict and one of the six
  source tags. The dict is the empty document \<^verbatim>\<open>{"chart_map": {}, "config": ""}\<close> when the
  resolved text is empty; it is \<^verbatim>\<open>{"chart_map": {}, "config": c}\<close>, with \<open>c\<close> the migrated
  text, when the text is a list; it is the parsed object with its \<^verbatim>\<open>config\<close> entry replaced
  by the migrated string when the version gate triggers; and it is the parsed object as it
  is, whatever its keys, when the declared version is above the threshold.
\<close>

theorem resolver_result_shape:
  assumes "get_spec_json e w spec = (Inr (doc, tag), w')"
  shows "is_dict doc \<and> tag \<in> set source_tags
       \<and> (\<exists>spec'. get_spec_json_from_diff_source e w spec = (Inr (spec', tag), w')
            \<and> (if \<not> py_truthy spec' then doc = JObj [(''chart_map'', JObj []), (''config'', JStr [])]
                else \<exists>body parsed. spec' = JStr body \<and> json_loads body = Inr parsed
                  \<and> (case parsed of
                        JArr xs \<Rightarrow>
                          \<exists>c. config_adapter e body = Inr c
                            \<and> doc = JObj [(''chart_map'', JObj []), (''config'', JStr c)]
                      | JObj ps \<Rightarrow>
                          (needs_migration parsed = Inr False \<and> doc = parsed)
                          \<or> (needs_migration parsed = Inr True
                              \<and> (\<exists>c0 c. map_of ps ''config'' = Some (JStr c0)
                                    \<and> config_adapter e c0 = Inr c
                                    \<and> doc = JObj (AList.update ''config'' (JStr c) ps)))
                      | _ \<Rightarrow> False)))"
proof -
  from assms obtain spec' spec_type where
    src0: "get_spec_json_from_diff_source e w spec = (Inr (spec', spec_type), w')" and
    res0: "(if \<not> py_truthy spec' then Inr (empty_document, spec_type)
           else bind (loads_spec spec') (\<lambda>parsed.
             let spec_obj = (case parsed of
                               JArr xs \<Rightarrow> JObj [(''chart_map'', JObj []), (''config'', spec')]
                             | _ \<Rightarrow> parsed)
             in bind (needs_migration spec_obj) (\<lambda>gate.
                  if gate then bind (migrate e spec_obj) (\<lambda>spec_obj'. Inr (spec_obj', spec_type))
                  else Inr (spec_obj, spec_type)))) = Inr (doc, tag)"
    unfolding get_spec_json_def by (auto split: prod.splits sum.splits)
  from res0 have eq: "spec_type = tag"
    by (auto simp: bind_Inr_iff Let_def split: if_splits)
  have src: "get_spec_json_from_diff_source e w spec = (Inr (spec', tag), w')"
    using src0 unfolding eq .
  have res: "(if \<not> py_truthy spec' then Inr (empty_document, tag)
           else bind (loads_spec spec') (\<lambda>parsed.
             let spec_obj = (case parsed of
                               JArr xs \<Rightarrow> JObj [(''chart_map'', JObj []), (''config'', spec')]
                             | _ \<Rightarrow> parsed)
             in bind (needs_migration spec_obj) (\<lambda>gate.
                  if gate then bind (migrate e spec_obj) (\<lambda>spec_obj'. Inr (spec_obj', tag))
                  else Inr (spec_obj, tag)))) = Inr (doc, tag)"
    using res0 unfolding eq .
  have tag: "tag \<in> set source_tags"
    using source_tag_known [OF src] .
  show ?thesis
  proof (cases "py_truthy spec'")
    case False
    with res have "doc = JObj [(''chart_map'', JObj []), (''config'', JStr [])]"
      by (simp add: empty_document_def)
    with False src tag show ?thesis by auto
  next
    case True
    with res obtain parsed gate where
      l: "loads_spec spec' = Inr parsed" and
      g: "needs_migration (case parsed of
                             JArr xs \<Rightarrow> JObj [(''chart_map'', JObj []), (''config'', spec')]
                           | _ \<Rightarrow> parsed) = Inr gate" and
      r: "(if gate
           then bind (migrate e (case parsed of
                                   JArr xs \<Rightarrow> JObj [(''chart_map'', JObj []), (''config'', spec')]
                                 | _ \<Rightarrow> parsed)) (\<lambda>spec_obj'. Inr (spec_obj', tag))
           else Inr (case parsed of
                       JArr xs \<Rightarrow> JObj [(''chart_map'', JObj []), (''config'', spec')]
                     | _ \<Rightarrow> parsed, tag)) = Inr (doc, tag)"
      by (auto simp: bind_Inr_iff Let_def)
    from l obtain body where body: "spec' = JStr body" "json_loads body = Inr parsed"
      by (cases spec') (auto simp: loads_spec_def split: sum.splits if_splits)
    show ?thesis
    proof (cases parsed)
      case (JArr xs)
      with g have gate: "gate"
        using needs_migration_absent [of "[(''chart_map'', JObj []), (''config'', spec')]"]
        by simp
      with r JArr obtain d' where
        "migrate e (JObj [(''chart_map'', JObj []), (''config'', spec')]) = Inr d'" "doc = d'"
        by (auto simp: bind_Inr_iff)
      from migrate_result [OF this(1)] this(2) body(1)
      obtain c where "config_adapter e body = Inr c"
        "doc = JObj [(''chart_map'', JObj []), (''config'', JStr c)]"
        by auto
      with JArr True src tag body show ?thesis by auto
    next
      case (JObj ps)
      show ?thesis
      proof (cases gate)
        case False
        with r g JObj have "doc = parsed" "needs_migration parsed = Inr False"
          by auto
        with JObj True src tag body show ?thesis by auto
      next
        case gate: True
        with r JObj obtain d' where "migrate e (JObj ps) = Inr d'" "doc = d'"
          by (auto simp: bind_Inr_iff)
        from migrate_result [OF this(1)] this(2)
        obtain c0 c where "map_of ps ''config'' = Some (JStr c0)" "config_adapter e c0 = Inr c"
          "doc = JObj (AList.update ''config'' (JStr c) ps)"
          by auto
        with JObj True src tag body g gate show ?thesis by auto
      qed
    qed (use g needs_migration_dict in \<open>force+\<close>)
  qed
qed


lemma resolve_empty_list:
  "get_spec_json sample_env sample_world ''[]''
     = (Inr (JObj [(''chart_map'', JObj []), (''config'', JStr ''[]'')], ''json_string''),
        sample_world)"
proof -
  have j: "is_json ''[]'' = Inr True" "json_loads ''[]'' = Inr (JArr [])"
    "config_adapter sample_env ''[]'' = Inr ''[]''"
    by code_simp+
  have src: "get_spec_json_from_diff_source sample_env sample_world ''[]''
       = (Inr (JStr ''[]'', ''json_string''), sample_world)"
    using j(1) by (simp add: get_spec_json_from_diff_source_def)
  have g: "needs_migration (JObj [(''chart_map'', JObj []), (''config'', JStr ''[]'')]) = Inr True"
    by (rule needs_migration_absent) simp
  have m: "migrate sample_env (JObj [(''chart_map'', JObj []), (''config'', JStr ''[]'')])
       = Inr (JObj [(''chart_map'', JObj []), (''config'', JStr ''[]'')])"
    using j(3) by (simp add: migrate_def)
  show ?thesis
    unfolding get_spec_json_def src using j(2) g m by (simp add: loads_spec_def)
qed

theorem resolver_result_shape_witness:
  "get_spec_json sample_env sample_world ''[]''
     = (Inr (JObj [(''chart_map'', JObj []), (''config'', JStr ''[]'')], ''json_string''),
        sample_world)
   \<and> is_dict (JObj [(''chart_map'', JObj []), (''config'', JStr ''[]'')])
   \<and> ''json_string'' \<in> set source_tags
   \<and> get_spec_json_from_diff_source sample_env sample_world ''[]''
       = (Inr (JStr ''[]'', ''json_string''), sample_world)
   \<and> config_adapter sample_env ''[]'' = Inr ''[]''"
proof -
  have l: "json_loads ''[]'' = Inr (JArr [])"
    by code_simp
  from resolver_result_shape [OF resolve_empty_list] obtain spec' where
    s: "get_spec_json_from_diff_source sample_env sample_world ''[]''
          = (Inr (spec', ''json_string''), sample_world)" and
    t: "if \<not> py_truthy spec'
        then JObj [(''chart_map'', JObj []), (''config'', JStr ''[]'')]
             = JObj [(''chart_map'', JObj []), (''config'', JStr [])]
        else \<exists>body parsed. spec' = JStr body \<and> json_loads body = Inr parsed
          \<and> (case parsed of
                JArr xs \<Rightarrow>
                  \<exists>c. config_adapter sample_env body = Inr c
                    \<and> JObj [(''chart_map'', JObj []), (''config'', JStr ''[]'')]
                        = JObj [(''chart_map'', JObj []), (''config'', JStr c)]
              | JObj ps \<Rightarrow>
                  (needs_migration parsed = Inr False
                    \<and> JObj [(''chart_map'', JObj []), (''config'', JStr ''[]'')] = parsed)
                  \<or> (needs_migration parsed = Inr True
                      \<and> (\<exists>c0 c. map_of ps ''config'' = Some (JStr c0)
                            \<and> config_adapter sample_env c0 = Inr c
                            \<and> JObj [(''chart_map'', JObj []), (''config'', JStr ''[]'')]
                                = JObj (AList.update ''config'' (JStr c) ps)))
              | _ \<Rightarrow> False)"
    by blast
  have "is_json ''[]'' = Inr True"
    by code_simp
  then have "get_spec_json_from_diff_source sample_env sample_world ''[]''
       = (Inr (JStr ''[]'', ''json_string''), sample_world)"
    by (simp add: get_spec_json_from_diff_source_def)
  with s have spec': "spec' = JStr ''[]''" by simp
  with t l have "config_adapter sample_env ''[]'' = Inr ''[]''"
    by auto
  with resolver_result_shape [OF resolve_empty_list] resolve_empty_list s spec' show ?thesis
    by simp
qed

text \<open>
  The claim as written fails on an object that declares a version above the threshold: it is
  returned as it is, without \<^verbatim>\<open>chart_map\<close> and \<^verbatim>\<open>config\<close>, and it is not empty.
\<close>

theorem resolver_result_shape_counterexample:
  "get_spec_json sample_env sample_world ''{\"version\": \"1.0.0\", \"foo\": 1}''
     = (Inr (JObj [(''version'', JStr ''1.0.0''), (''foo'', JInt 1)], ''json_string''), sample_world)
   \<and> map_of [(''version'', JStr ''1.0.0''), (''foo'', JInt 1)] ''chart_map'' = None
   \<and> map_of [(''version'', JStr ''1.0.0''), (''foo'', JInt 1)] ''config'' = None
   \<and> JObj [(''version'', JStr ''1.0.0''), (''foo'', JInt 1)] \<noteq> JObj []"
proof -
  have j: "is_json ''{\"version\": \"1.0.0\", \"foo\": 1}'' = Inr True"
    "json_loads ''{\"version\": \"1.0.0\", \"foo\": 1}''
       = Inr (JObj [(''version'', JStr ''1.0.0''), (''foo'', JInt 1)])"
    "needs_migration (JObj [(''version'', JStr ''1.0.0''), (''foo'', JInt 1)]) = Inr False"
    by code_simp+
  have src: "get_spec_json_from_diff_source sample_env sample_world
         ''{\"version\": \"1.0.0\", \"foo\": 1}''
       = (Inr (JStr ''{\"version\": \"1.0.0\", \"foo\": 1}'', ''json_string''), sample_world)"
    using j(1) by (simp add: get_spec_json_from_diff_source_def)
  have "get_spec_json sample_env sample_world ''{\"version\": \"1.0.0\", \"foo\": 1}''
     = (Inr (JObj [(''version'', JStr ''1.0.0''), (''foo'', JInt 1)], ''json_string''), sample_world)"
    unfolding get_spec_json_def src using j(2,3) by (simp add: loads_spec_def)
  then show ?thesis by simp
qed

subsection \<open>The decoder inverts the encoder\<close>

lemma hex_digit_all:
  "\<forall>n \<in> set [0..<16]. is_hexdigit (hex_digit n) \<and> hex_val (hex_digit n) = n"
  by code_simp

lemma hex_digit_ok: "n < 16 \<Longrightarrow> is_hexdigit (hex_digit n) \<and> hex_val (hex_digit n) = n"
  using hex_digit_all by simp

lemma scanstring_u00:
  assumes "n < 256"
  shows "scanstring (CHR 0x5C # CHR ''u'' # CHR ''0'' # CHR ''0'' # hex_digit (n div 16)
           # hex_digit n # r) = cons_str (char_of n) (scanstring r)"
proof -
  have d: "n div 16 < 16" "n mod 16 < 16"
    using assms by simp_all
  have h1: "is_hexdigit (hex_digit (n div 16))" "hex_val (hex_digit (n div 16)) = n div 16"
    using hex_digit_ok [OF d(1)] by simp_all
  have "hex_digit n = hex_digit (n mod 16)"
    by (simp add: hex_digit_def)
  then have h2: "is_hexdigit (hex_digit n)" "hex_val (hex_digit n) = n mod 16"
    using hex_digit_ok [OF d(2)] by simp_all
  have z: "is_hexdigit (CHR ''0'')" "hex_val (CHR ''0'') = 0"
    by (simp_all add: is_hexdigit_def hex_val_def is_digit_def)
  have v: "hex_to_nat [CHR ''0'', CHR ''0'', hex_digit (n div 16), hex_digit n] = n"
    using h1 h2 z by (simp add: hex_to_nat_def)
  show ?thesis
    using h1 h2 z v assms by simp
qed

lemma scanstring_escape_char: "scanstring (escape_char c @ r) = cons_str c (scanstring r)"
proof -
  consider "c = CHR 0x22" | "c = CHR 0x5C" | "c = CHR 0x0A" | "c = CHR 0x0D" | "c = CHR 0x09"
    | "c = CHR 0x08" | "c = CHR 0x0C"
    | "c \<notin> set [CHR 0x22, CHR 0x5C, CHR 0x0A, CHR 0x0D, CHR 0x09, CHR 0x08, CHR 0x0C]"
      "(32 :: nat) \<le> of_char c \<and> of_char c \<le> (126 :: nat)"
    | "c \<notin> set [CHR 0x22, CHR 0x5C, CHR 0x0A, CHR 0x0D, CHR 0x09, CHR 0x08, CHR 0x0C]"
      "\<not> ((32 :: nat) \<le> of_char c \<and> of_char c \<le> (126 :: nat))"
    by auto
  then show ?thesis
  proof cases
    case 8
    then show ?thesis
      by (simp add: escape_char_def)
  next
    case 9
    then have "escape_char c = [CHR 0x5C, CHR ''u'', CHR ''0'', CHR ''0'',
        hex_digit (of_char c div 16), hex_digit (of_char c)]"
      by (simp add: escape_char_def)
    then show ?thesis
      using scanstring_u00 [of "of_char c" r] by simp
  qed (simp_all add: escape_char_def unescape_def)
qed

lemma scanstring_dumps:
  "scanstring (concat (map escape_char s) @ CHR 0x22 # r) = Inr (s, r)"
proof (induction s)
  case Nil
  show ?case by simp
next
  case (Cons c s)
  have "scanstring (concat (map escape_char (c # s)) @ CHR 0x22 # r)
      = scanstring (escape_char c @ (concat (map escape_char s) @ CHR 0x22 # r))"
    by simp
  also have "\<dots> = cons_str c (scanstring (concat (map escape_char s) @ CHR 0x22 # r))"
    by (rule scanstring_escape_char)
  also have "\<dots> = Inr (c # s, r)"
    by (simp add: Cons.IH cons_str_def)
  finally show ?case .
qed

lemma scan_token_dumps_str:
  "scan_token (dumps_str s @ r) = Inr (TVal (JStr s), r)"
  by (simp add: dumps_str_def scan_token_def scanstring_dumps)

lemma dec_digit_all:
  "\<forall>d \<in> set [0..<10]. is_digit (char_of (48 + d)) \<and> digit_val (char_of (48 + d)) = d
     \<and> (char_of (48 + d) = CHR ''0'' \<longleftrightarrow> d = 0) \<and> char_of (48 + d) \<noteq> CHR ''-''"
  by code_simp

lemma dec_digit:
  "d < 10 \<Longrightarrow> is_digit (char_of (48 + d)) \<and> digit_val (char_of (48 + d)) = d
     \<and> (char_of (48 + d) = CHR ''0'' \<longleftrightarrow> d = 0) \<and> char_of (48 + d) \<noteq> CHR ''-''"
  using dec_digit_all by simp

lemma dec_to_nat_snoc: "dec_to_nat (ds @ [c]) = 10 * dec_to_nat ds + digit_val c"
  by (simp add: dec_to_nat_def)

lemma nat_to_dec_props:
  "nat_to_dec n \<noteq> [] \<and> (\<forall>c \<in> set (nat_to_dec n). is_digit c) \<and> dec_to_nat (nat_to_dec n) = n
     \<and> (hd (nat_to_dec n) = CHR ''0'' \<longleftrightarrow> n = 0)"
proof (induction n rule: nat_to_dec.induct)
  case (1 n)
  show ?case
  proof (cases "n < 10")
    case True
    then have "nat_to_dec n = [char_of (48 + n)]"
      by (simp add: nat_to_dec.simps [of n])
    with dec_digit [OF True] show ?thesis
      by (simp add: dec_to_nat_def)
  next
    case False
    then have eq: "nat_to_dec n = nat_to_dec (n div 10) @ [char_of (48 + n mod 10)]"
      by (simp add: nat_to_dec.simps [of n])
    have m: "n mod 10 < 10" by simp
    from False have pos: "n div 10 \<noteq> 0" "n \<noteq> 0" by auto
    from "1.IH" [OF False] dec_digit [OF m] pos show ?thesis
      unfolding eq by (simp add: dec_to_nat_snoc)
  qed
qed

lemma is_digit_follow: "follow_ok r \<Longrightarrow> takeWhile is_digit r = [] \<and> dropWhile is_digit r = r"
  by (cases r) (auto simp: follow_ok_def is_digit_def)

lemma scan_frac_follow: "follow_ok r \<Longrightarrow> scan_frac r = ([], r)"
  by (cases r) (auto simp: follow_ok_def scan_frac_def split: list.splits)

lemma scan_exp_follow: "follow_ok r \<Longrightarrow> scan_exp r = ([], r)"
  by (cases r) (auto simp: follow_ok_def scan_exp_def)

lemma scan_int_part_dec:
  assumes "follow_ok r"
  shows "scan_int_part (nat_to_dec n @ r) = Some (nat_to_dec n, r)"
proof -
  from nat_to_dec_props [of n] obtain d ds where
    ds: "nat_to_dec n = d # ds" and dig: "is_digit d" "\<forall>c \<in> set ds. is_digit c" and
    zero: "d = CHR ''0'' \<longleftrightarrow> n = 0"
    by (cases "nat_to_dec n") auto
  show ?thesis
  proof (cases "n = 0")
    case True
    have "char_of (48 :: nat) = CHR ''0''"
      by code_simp
    with True have "nat_to_dec n = ''0''"
      by (simp add: nat_to_dec.simps [of 0])
    then show ?thesis
      by (simp add: scan_int_part_def)
  next
    case False
    with zero have "d \<noteq> CHR ''0''" by simp
    moreover have "takeWhile is_digit (ds @ r) = ds" "dropWhile is_digit (ds @ r) = r"
      using dig(2) is_digit_follow [OF assms] by (simp_all add: takeWhile_append2 dropWhile_append2)
    ultimately show ?thesis
      using ds dig(1) by (simp add: scan_int_part_def)
  qed
qed

lemma scan_number_dec:
  assumes "follow_ok r"
  shows "scan_number (int_to_dec i @ r) = Some (JInt i, r)"
proof (cases "i < 0")
  case True
  then have s: "int_to_dec i @ r = CHR ''-'' # nat_to_dec (nat (- i)) @ r"
    by (simp add: int_to_dec_def)
  show ?thesis
    unfolding s scan_number_def
    using True nat_to_dec_props [of "nat (- i)"] scan_int_part_dec [OF assms]
      scan_frac_follow [OF assms] scan_exp_follow [OF assms]
    by simp
next
  case False
  then have s: "int_to_dec i @ r = nat_to_dec (nat i) @ r"
    by (simp add: int_to_dec_def)
  from nat_to_dec_props [of "nat i"] obtain d ds where
    ds: "nat_to_dec (nat i) = d # ds" and dig: "is_digit d"
    by (cases "nat_to_dec (nat i)") auto
  from dig have "d \<noteq> CHR ''-''"
    by (auto simp: is_digit_def)
  then have sg: "(case nat_to_dec (nat i) @ r of [] \<Rightarrow> [] | c # r \<Rightarrow> if c = CHR ''-'' then [c] else [])
      = []"
    using ds by simp
  show ?thesis
    unfolding s scan_number_def sg
    using False nat_to_dec_props [of "nat i"] scan_int_part_dec [OF assms]
      scan_frac_follow [OF assms] scan_exp_follow [OF assms]
    by simp
qed

lemma int_to_dec_first:
  "\<exists>c cs. int_to_dec i = c # cs \<and> (is_digit c \<or> c = CHR ''-'')"
  using nat_to_dec_props [of "nat i"]
  by (cases "nat_to_dec (nat i)") (auto simp: int_to_dec_def)

lemma scan_token_dec:
  assumes "follow_ok r"
  shows "scan_token (int_to_dec i @ r) = Inr (TVal (JInt i), r)"
proof -
  from int_to_dec_first [of i] obtain c cs where
    c: "int_to_dec i = c # cs" "is_digit c \<or> c = CHR ''-''"
    by blast
  from c(2) have "c \<notin> set [CHR 0x22, CHR ''{'', CHR ''}'', CHR ''['', CHR '']'', CHR '','', CHR '':'',
      CHR ''n'', CHR ''t'', CHR ''f'']"
    by (auto simp: is_digit_def)
  then show ?thesis
    using scan_number_dec [OF assms, of i] c(1)
    by (simp add: scan_token_def)
qed

lemma lex_app_simps [simp]:
  "lex_app [] r = r" "lex_app (t # ts) r = lex_cons t (lex_app ts r)"
  "lex_app (ts @ us) r = lex_app ts (lex_app us r)"
  by (cases r; simp add: lex_app_def lex_cons_def)+

lemma lex_app_Inr: "lex_app ts (Inr us) = Inr (ts @ us)"
  by (simp add: lex_app_def)

lemma lex_Nil [simp]: "lex [] = Inr []"
  by (simp add: lex.simps [of "[]"])

lemma lex_ws: "is_ws c \<Longrightarrow> lex (c # s) = lex s"
  by (simp add: lex.simps [of "c # s"] lex.simps [of s])

lemma lex_scan:
  assumes "\<not> is_ws c" and "scan_token (c # cs) = Inr (t, rest)"
  shows "lex (c # cs) = lex_app [t] (lex rest)"
  using assms by (simp add: lex.simps [of "c # cs"] lex_cons_def split: sum.splits)

lemma lex_punct:
  "lex (CHR '','' # CHR '' '' # s) = lex_app [TComma] (lex s)"
  "lex (CHR '':'' # CHR '' '' # s) = lex_app [TColon] (lex s)"
  "lex (CHR '']'' # s) = lex_app [TRBrack] (lex s)"
  "lex (CHR ''}'' # s) = lex_app [TRBrace] (lex s)"
  "lex (CHR ''['' # s) = lex_app [TLBrack] (lex s)"
  "lex (CHR ''{'' # s) = lex_app [TLBrace] (lex s)"
proof -
  have ws: "is_ws (CHR '' '')"
    by (simp add: is_ws_def)
  show "lex (CHR '','' # CHR '' '' # s) = lex_app [TComma] (lex s)"
    using lex_scan [of "CHR '',''" "CHR '' '' # s" TComma "CHR '' '' # s"] lex_ws [OF ws, of s]
    by (simp add: is_ws_def scan_token_def)
  show "lex (CHR '':'' # CHR '' '' # s) = lex_app [TColon] (lex s)"
    using lex_scan [of "CHR '':''" "CHR '' '' # s" TColon "CHR '' '' # s"] lex_ws [OF ws, of s]
    by (simp add: is_ws_def scan_token_def)
  show "lex (CHR '']'' # s) = lex_app [TRBrack] (lex s)"
    using lex_scan [of "CHR '']''" s TRBrack s] by (simp add: is_ws_def scan_token_def)
  show "lex (CHR ''}'' # s) = lex_app [TRBrace] (lex s)"
    using lex_scan [of "CHR ''}''" s TRBrace s] by (simp add: is_ws_def scan_token_def)
  show "lex (CHR ''['' # s) = lex_app [TLBrack] (lex s)"
    using lex_scan [of "CHR ''[''" s TLBrack s] by (simp add: is_ws_def scan_token_def)
  show "lex (CHR ''{'' # s) = lex_app [TLBrace] (lex s)"
    using lex_scan [of "CHR ''{''" s TLBrace s] by (simp add: is_ws_def scan_token_def)
qed

lemma lex_dumps_str: "lex (dumps_str s @ r) = lex_app [TVal (JStr s)] (lex r)"
proof -
  have "dumps_str s @ r = CHR 0x22 # concat (map escape_char s) @ CHR 0x22 # r"
    by (simp add: dumps_str_def)
  moreover have "\<not> is_ws (CHR 0x22)"
    by (simp add: is_ws_def)
  ultimately show ?thesis
    using lex_scan [of "CHR 0x22" "concat (map escape_char s) @ CHR 0x22 # r" "TVal (JStr s)" r]
      scan_token_dumps_str [of s r]
    by simp
qed

lemma lex_dumps_int:
  assumes "follow_ok r"
  shows "lex (int_to_dec i @ r) = lex_app [TVal (JInt i)] (lex r)"
proof -
  from int_to_dec_first [of i] obtain c cs where
    c: "int_to_dec i = c # cs" "is_digit c \<or> c = CHR ''-''"
    by blast
  from c(2) have "\<not> is_ws c"
    by (auto simp: is_digit_def is_ws_def)
  then show ?thesis
    using lex_scan [of c "cs @ r" "TVal (JInt i)" r] scan_token_dec [OF assms, of i] c(1)
    by simp
qed

lemma lex_dumps_literal:
  "lex (''null'' @ r) = lex_app [TVal JNull] (lex r)"
  "lex (''true'' @ r) = lex_app [TVal (JBool True)] (lex r)"
  "lex (''false'' @ r) = lex_app [TVal (JBool False)] (lex r)"
proof -
  show "lex (''null'' @ r) = lex_app [TVal JNull] (lex r)"
    using lex_scan [of "CHR ''n''" "''ull'' @ r" "TVal JNull" r]
    by (simp add: is_ws_def scan_token_def)
  show "lex (''true'' @ r) = lex_app [TVal (JBool True)] (lex r)"
    using lex_scan [of "CHR ''t''" "''rue'' @ r" "TVal (JBool True)" r]
    by (simp add: is_ws_def scan_token_def)
  show "lex (''false'' @ r) = lex_app [TVal (JBool False)] (lex r)"
    using lex_scan [of "CHR ''f''" "''alse'' @ r" "TVal (JBool False)" r]
    by (simp add: is_ws_def scan_token_def)
qed

lemma follow_ok_simps [simp]:
  "follow_ok []" "follow_ok (CHR '','' # s)" "follow_ok (CHR '']'' # s)" "follow_ok (CHR ''}'' # s)"
  by (simp_all add: follow_ok_def)

lemma lex_dumps:
  "float_free v \<Longrightarrow> follow_ok r \<Longrightarrow> lex (json_dumps v @ r) = lex_app (toks v) (lex r)"
  "list_all float_free xs \<Longrightarrow>
     lex (dumps_items xs @ CHR '']'' # r) = lex_app (toks_items xs @ [TRBrack]) (lex r)"
  "list_all (\<lambda>p. float_free (snd p)) ps \<Longrightarrow>
     lex (dumps_members ps @ CHR ''}'' # r) = lex_app (toks_members ps @ [TRBrace]) (lex r)"
proof (induction v and xs and ps arbitrary: r and r and r
    rule: json_dumps_dumps_items_dumps_members.induct)
  case 1
  then show ?case using lex_dumps_literal(1) [of r] by simp
next
  case (2 b)
  then show ?case
    using lex_dumps_literal(2) [of r] lex_dumps_literal(3) [of r] by (cases b) simp_all
next
  case (3 i)
  then show ?case using lex_dumps_int [of r i] by simp
next
  case (4 l)
  then show ?case by simp
next
  case (5 s)
  then show ?case using lex_dumps_str [of s r] by simp
next
  case (6 xs)
  then show ?case
    using lex_punct(5) [of "dumps_items xs @ CHR '']'' # r"] by simp
next
  case (7 ps)
  then show ?case
    using lex_punct(6) [of "dumps_members ps @ CHR ''}'' # r"] by simp
next
  case 8
  then show ?case using lex_punct(3) [of r] by simp
next
  case (9 x)
  then show ?case
    using lex_punct(3) [of r] by simp
next
  case (10 x y ys)
  have "lex (dumps_items (x # y # ys) @ CHR '']'' # r)
      = lex (json_dumps x @ (CHR '','' # CHR '' '' # dumps_items (y # ys) @ CHR '']'' # r))"
    by simp
  also have "\<dots> = lex_app (toks x)
      (lex (CHR '','' # CHR '' '' # dumps_items (y # ys) @ CHR '']'' # r))"
    using "10.prems" by (intro "10.IH"(1)) simp_all
  also have "\<dots> = lex_app (toks x) (lex_app [TComma]
      (lex (dumps_items (y # ys) @ CHR '']'' # r)))"
    by (simp only: lex_punct(1))
  also have "\<dots> = lex_app (toks_items (x # y # ys) @ [TRBrack]) (lex r)"
    using "10.prems" "10.IH"(2) [of r] by simp
  finally show ?case .
next
  case 11
  then show ?case using lex_punct(4) [of r] by simp
next
  case (12 k v)
  have "lex (dumps_members [(k, v)] @ CHR ''}'' # r)
      = lex (dumps_str k @ (CHR '':'' # CHR '' '' # json_dumps v @ CHR ''}'' # r))"
    by simp
  also have "\<dots> = lex_app [TVal (JStr k)]
      (lex (CHR '':'' # CHR '' '' # json_dumps v @ CHR ''}'' # r))"
    by (rule lex_dumps_str)
  also have "\<dots> = lex_app [TVal (JStr k), TColon] (lex (json_dumps v @ (CHR ''}'' # r)))"
    by (simp add: lex_punct(2))
  also have "\<dots> = lex_app [TVal (JStr k), TColon] (lex_app (toks v) (lex (CHR ''}'' # r)))"
    using "12.prems" by (subst "12.IH") simp_all
  finally show ?case
    using lex_punct(4) [of r] by simp
next
  case (13 k v p ps)
  have "lex (dumps_members ((k, v) # p # ps) @ CHR ''}'' # r)
      = lex (dumps_str k @ (CHR '':'' # CHR '' '' # json_dumps v
              @ (CHR '','' # CHR '' '' # dumps_members (p # ps) @ CHR ''}'' # r)))"
    by simp
  also have "\<dots> = lex_app [TVal (JStr k)]
      (lex (CHR '':'' # CHR '' '' # json_dumps v
              @ (CHR '','' # CHR '' '' # dumps_members (p # ps) @ CHR ''}'' # r)))"
    by (rule lex_dumps_str)
  also have "\<dots> = lex_app [TVal (JStr k), TColon]
      (lex (json_dumps v @ (CHR '','' # CHR '' '' # dumps_members (p # ps) @ CHR ''}'' # r)))"
    by (simp add: lex_punct(2))
  also have "\<dots> = lex_app [TVal (JStr k), TColon] (lex_app (toks v)
      (lex (CHR '','' # CHR '' '' # dumps_members (p # ps) @ CHR ''}'' # r)))"
    using "13.prems" by (subst "13.IH"(1)) simp_all
  also have "\<dots> = lex_app [TVal (JStr k), TColon] (lex_app (toks v) (lex_app [TComma]
      (lex (dumps_members (p # ps) @ CHR ''}'' # r))))"
    by (simp only: lex_punct(1))
  also have "\<dots> = lex_app (toks_members ((k, v) # p # ps) @ [TRBrace]) (lex r)"
    using "13.prems" "13.IH"(2) [of r] by simp
  finally show ?case .
qed

lemma update_fresh: "k \<notin> fst ` set al \<Longrightarrow> AList.update k v al = al @ [(k, v)]"
  by (induction al) auto

lemma run_append: "run (ts @ us) s = (case run ts s of None \<Rightarrow> None | Some s' \<Rightarrow> run us s')"
  by (induction ts arbitrary: s) (auto split: option.splits)

lemma step_value:
  assumes "value_mode m st"
  shows "step (st, m) (TVal v) = Some (deliver v st)"
    and "step (st, m) TLBrack = Some (FArr [] # st, MFirst)"
    and "step (st, m) TLBrace = Some (FObj [] [] # st, MFirst)"
  using assms by (auto simp: value_mode_def open_value_def)

lemma step_key:
  assumes "m = MFirst \<or> m = MKey"
  shows "step (FObj acc k0 # st, m) (TVal (JStr k)) = Some (FObj acc k # st, MColon)"
  using assms by (auto simp: read_key_def)

lemma run_toks:
  "wf_json v \<Longrightarrow> value_mode m st \<Longrightarrow> run (toks v @ ts) (st, m) = run ts (deliver v st)"
  "list_all wf_json xs \<Longrightarrow> xs \<noteq> [] \<Longrightarrow> value_mode m (FArr acc # st) \<Longrightarrow>
     run (toks_items xs @ TRBrack # ts) (FArr acc # st, m) = run ts (deliver (JArr (acc @ xs)) st)"
  "list_all (\<lambda>p. wf_json (snd p)) ps \<Longrightarrow> distinct (map fst (pacc @ ps)) \<Longrightarrow> ps \<noteq> [] \<Longrightarrow>
     m = MFirst \<or> m = MKey \<Longrightarrow>
     run (toks_members ps @ TRBrace # ts) (FObj pacc k0 # st, m)
       = run ts (deliver (JObj (pacc @ ps)) st)"
proof (induction v and xs and ps arbitrary: m st ts and m st ts acc and m st ts pacc k0
    rule: toks_toks_items_toks_members.induct)
  case (1 xs)
  show ?case
  proof (cases "xs = []")
    case True
    then show ?thesis
      using step_value(2) [OF "1.prems"(2)] by simp
  next
    case False
    have "value_mode MFirst (FArr [] # st)"
      by (simp add: value_mode_def)
    from "1.IH" [OF _ False this, of ts] "1.prems"(1) show ?thesis
      using step_value(2) [OF "1.prems"(2)] by simp
  qed
next
  case (2 ps)
  show ?case
  proof (cases "ps = []")
    case True
    then show ?thesis
      using step_value(3) [OF "2.prems"(2)] by simp
  next
    case False
    from "2.IH" [of "[]" MFirst ts "[]" st, OF _ _ False] "2.prems"(1) show ?thesis
      using step_value(3) [OF "2.prems"(2)] by simp
  qed
next
  case 3
  then show ?case using step_value(1) by simp
next
  case (4 b)
  then show ?case using step_value(1) by simp
next
  case (5 i)
  then show ?case using step_value(1) by simp
next
  case (6 l)
  then show ?case using step_value(1) by simp
next
  case (7 s)
  then show ?case using step_value(1) by simp
next
  case 8
  then show ?case by simp
next
  case (9 x)
  from "9.prems" have "run (toks x @ TRBrack # ts) (FArr acc # st, m)
      = run (TRBrack # ts) (deliver x (FArr acc # st))"
    by (intro "9.IH") simp_all
  then show ?case
    by (simp add: close_or_next_def)
next
  case (10 x y ys)
  have v: "value_mode MValue (FArr (acc @ [x]) # st)"
    by (simp add: value_mode_def)
  from "10.prems" have "run (toks x @ (TComma # toks_items (y # ys) @ TRBrack # ts))
        (FArr acc # st, m)
      = run (TComma # toks_items (y # ys) @ TRBrack # ts) (deliver x (FArr acc # st))"
    by (intro "10.IH"(1)) simp_all
  also have "\<dots> = run (toks_items (y # ys) @ TRBrack # ts) (FArr (acc @ [x]) # st, MValue)"
    by (simp add: close_or_next_def)
  also have "\<dots> = run ts (deliver (JArr ((acc @ [x]) @ y # ys)) st)"
    using "10.prems" by (intro "10.IH"(2) v) simp_all
  finally show ?case by simp
next
  case 11
  then show ?case by simp
next
  case (12 k v)
  from "12.prems" have fresh: "k \<notin> fst ` set pacc"
    by auto
  have "run (toks_members [(k, v)] @ TRBrace # ts) (FObj pacc k0 # st, m)
      = run (toks v @ TRBrace # ts) (FObj pacc k # st, MValue)"
    using step_key [OF "12.prems"(4)] by simp
  also have "\<dots> = run (TRBrace # ts) (deliver v (FObj pacc k # st))"
    using "12.prems" by (intro "12.IH") (simp_all add: value_mode_def)
  finally show ?case
    using fresh by (simp add: close_or_next_def update_fresh)
next
  case (13 k v p ps)
  from "13.prems" have fresh: "k \<notin> fst ` set pacc"
    by auto
  have "run (toks_members ((k, v) # p # ps) @ TRBrace # ts) (FObj pacc k0 # st, m)
      = run (toks v @ (TComma # toks_members (p # ps) @ TRBrace # ts)) (FObj pacc k # st, MValue)"
    using step_key [OF "13.prems"(4)] by simp
  also have "\<dots> = run (TComma # toks_members (p # ps) @ TRBrace # ts)
      (deliver v (FObj pacc k # st))"
    using "13.prems" by (intro "13.IH"(1)) (simp_all add: value_mode_def)
  also have "\<dots> = run (toks_members (p # ps) @ TRBrace # ts)
      (FObj (pacc @ [(k, v)]) k # st, MKey)"
    using fresh by (simp add: close_or_next_def update_fresh)
  also have "\<dots> = run ts (deliver (JObj ((pacc @ [(k, v)]) @ p # ps)) st)"
    using "13.prems" by (intro "13.IH"(2)) simp_all
  finally show ?case by simp
qed

lemma loads_dumps:
  assumes "wf_json v" and "float_free v"
  shows "json_loads (json_dumps v) = Inr v"
proof -
  have "lex (json_dumps v) = Inr (toks v)"
    using lex_dumps(1) [OF assms(2), of "[]"] by (simp add: lex_app_Inr)
  moreover have "run (toks v) ([], MValue) = Some ([], MDone v)"
    using run_toks(1) [OF assms(1), of MValue "[]" "[]"] by (simp add: value_mode_def)
  ultimately show ?thesis
    by (simp add: json_loads_def)
qed

lemma scan_number_wf: "scan_number s = Some (v, rest) \<Longrightarrow> wf_json v"
  by (auto simp: scan_number_def Let_def split: option.splits prod.splits if_splits)

lemma scan_token_wf: "scan_token s = Inr (t, rest) \<Longrightarrow> wf_token t"
  by (cases s)
    (auto simp: scan_token_def split: if_splits sum.splits option.splits dest: scan_number_wf)

lemma lex_wf: "lex s = Inr ts \<Longrightarrow> list_all wf_token ts"
proof (induction s arbitrary: ts rule: lex.induct)
  case (1 s)
  show ?case
  proof (cases "dropWhile is_ws s")
    case Nil
    with "1.prems" show ?thesis
      by (simp add: lex.simps [of s])
  next
    case (Cons c cs)
    with "1.prems" obtain t rest us where
      t: "scan_token (c # cs) = Inr (t, rest)" and r: "lex rest = Inr us" and ts: "ts = t # us"
      by (auto simp: lex.simps [of s] split: sum.splits)
    from "1.IH" [OF Cons t refl r] scan_token_wf [OF t] ts show ?thesis
      by simp
  qed
qed

lemma list_all_update:
  "list_all P ps \<Longrightarrow> P (k, v) \<Longrightarrow> list_all P (AList.update k v ps)"
  by (induction ps) auto

lemma wf_state_frames: "wf_state (st, m) \<Longrightarrow> list_all wf_frame st"
  by (cases m) auto

lemma deliver_wf: "wf_json v \<Longrightarrow> list_all wf_frame st \<Longrightarrow> wf_state (deliver v st)"
proof (cases st)
  case Nil
  assume "wf_json v" with Nil show ?thesis by simp
next
  case (Cons f st')
  assume "wf_json v" "list_all wf_frame st"
  with Cons show ?thesis
    by (cases f) (auto simp: distinct_update list_all_update)
qed

lemma step_wf:
  assumes "step s t = Some s'" and "wf_state s" and "wf_token t"
  shows "wf_state s'"
proof -
  obtain st m where s: "s = (st, m)" by (cases s)
  from assms(2) s have fr: "list_all wf_frame st"
    using wf_state_frames by simp
  have open_v: "open_value st t = Some s' \<Longrightarrow> wf_state s'"
    using fr assms(3) by (cases t) (auto simp: open_value_def deliver_wf)
  have key: "read_key st t = Some s' \<Longrightarrow> wf_state s'"
    using fr by (auto simp: read_key_def split: list.splits frame.splits token.splits json.splits)
  have close: "close_or_next st t = Some s' \<Longrightarrow> wf_state s'"
    using fr
    by (auto simp: close_or_next_def deliver_wf split: list.splits frame.splits if_splits)
  show ?thesis
  proof (cases m)
    case MFirst
    with assms(1) s fr open_v key show ?thesis
      by (auto simp: deliver_wf split: list.splits frame.splits if_splits)
  qed (use assms(1) s fr open_v key close in \<open>auto split: if_splits\<close>)
qed

lemma run_wf: "run ts s = Some s' \<Longrightarrow> wf_state s \<Longrightarrow> list_all wf_token ts \<Longrightarrow> wf_state s'"
proof (induction ts arbitrary: s)
  case Nil
  then show ?case by simp
next
  case (Cons t ts)
  from Cons.prems(1) obtain s1 where s1: "step s t = Some s1" "run ts s1 = Some s'"
    by (auto split: option.splits)
  from step_wf [OF s1(1) Cons.prems(2)] Cons.prems(3) have "wf_state s1"
    by simp
  from Cons.IH [OF s1(2) this] Cons.prems(3) show ?case
    by simp
qed

lemma json_loads_wf:
  assumes "json_loads s = Inr v"
  shows "wf_json v"
proof -
  from assms obtain ts where l: "lex s = Inr ts" and r: "run ts ([], MValue) = Some ([], MDone v)"
    by (auto simp: json_loads_def split: sum.splits option.splits prod.splits list.splits
        mode.splits)
  from run_wf [OF r _ lex_wf [OF l]] show ?thesis
    by simp
qed

end
